theory Spec2Isabelle
  imports Main
begin

section \<open>JavaScript values\<close>

text \<open>
  The converter (\<^verbatim>\<open>src/convert.ts\<close>) handles JSON data and command-line strings.
  A value is one of the JSON shapes or \<^verbatim>\<open>undefined\<close>. An object is the list of its own
  properties in insertion order (keys distinct). A string is the list of its code units;
  the separators the program looks for (comma, line feed, the dot of an extension) are
  ASCII. Numbers only ever have their truthiness tested and are carried as integers.
\<close>

datatype jsval =
    JUndefined
  | JNull
  | JBool bool
  | JNum int
  | JStr string
  | JArr "jsval list"
  | JObj "(string \<times> jsval) list"

text \<open>\<^verbatim>\<open>!v\<close> is \<open>\<not> truthy v\<close>: undefined, null, false, 0 and the empty string are falsy;
  every array and every object is truthy, the empty ones too.\<close>

fun truthy :: "jsval \<Rightarrow> bool" where
  "truthy JUndefined = False"
| "truthy JNull = False"
| "truthy (JBool b) = b"
| "truthy (JNum n) = (n \<noteq> 0)"
| "truthy (JStr s) = (s \<noteq> [])"
| "truthy (JArr xs) = True"
| "truthy (JObj kvs) = True"

text \<open>A value of TypeScript type \<^verbatim>\<open>string | undefined\<close>.\<close>

fun optional :: "string option \<Rightarrow> jsval" where
  "optional None = JUndefined"
| "optional (Some s) = JStr s"

text \<open>\<^verbatim>\<open>a === b\<close> on strings and undefined, the only values the flat path compares:
  equal when of the same type and the same content.\<close>

definition strict_equals :: "jsval \<Rightarrow> jsval \<Rightarrow> bool" where
  "strict_equals a b = (a = b)"

text \<open>\<^verbatim>\<open>v || d\<close> for \<^verbatim>\<open>v : string | undefined\<close> and a string \<open>d\<close>.\<close>

definition or_default :: "string option \<Rightarrow> string \<Rightarrow> string" where
  "or_default v d = (case v of None \<Rightarrow> d | Some s \<Rightarrow> if truthy (JStr s) then s else d)"

section \<open>Strings\<close>

text \<open>\<^verbatim>\<open>s.split(c)\<close> for a one-character separator: always at least one piece.\<close>

fun split_on :: "char \<Rightarrow> string \<Rightarrow> string list" where
  "split_on c [] = [[]]"
| "split_on c (x # xs) =
     (if x = c then [] # split_on c xs
      else (case split_on c xs of
              [] \<Rightarrow> [[x]]
            | piece # pieces \<Rightarrow> (x # piece) # pieces))"

definition endsWith :: "string \<Rightarrow> string \<Rightarrow> bool" where
  "endsWith s suffix =
     (length suffix \<le> length s \<and> drop (length s - length suffix) s = suffix)"

text \<open>\<^verbatim>\<open>s.replace(/\.ext$/, r)\<close>: the pattern is anchored at the end of the string and
  the replacement text has no special pattern, so a trailing \<open>ext\<close> is swapped for \<open>r\<close>
  and any other string is returned as it is.\<close>

definition replace_suffix :: "string \<Rightarrow> string \<Rightarrow> string \<Rightarrow> string" where
  "replace_suffix ext r s =
     (if endsWith s ext then take (length s - length ext) s @ r else s)"

section \<open>The output document\<close>

text \<open>A property that is absent and a property that holds undefined are both
  \<open>JUndefined\<close> in these records: the serializer leaves both out. The field
  \<open>compose_include\<close> is \<^verbatim>\<open>compose.include\<close>; a group's \<open>concept\<close> is optional, as the
  type \<^verbatim>\<open>ValueSetComposeInclude\<close> has it.\<close>

record ValueSetComposeIncludeConcept =
  code :: jsval
  display :: jsval
  definition' :: jsval

record ValueSetComposeInclude =
  system :: jsval
  concept :: "ValueSetComposeIncludeConcept list option"

record ValueSet =
  resourceType :: string
  id' :: jsval
  url :: jsval
  name :: jsval
  description :: jsval
  status :: jsval
  compose_include :: "ValueSetComposeInclude list"

section \<open>The environment\<close>

text \<open>
  What the program takes from Node: \<open>require\<close> loads a module and gives its exports
  (\<open>None\<close> when it throws), \<open>readFileSync\<close> reads a file as text (\<open>None\<close> when it throws)
  and \<open>basename\<close> is \<^verbatim>\<open>path.basename\<close>. Loading a module runs its code, which can store
  properties on \<^verbatim>\<open>Object.prototype\<close>, where every later property read finds them:
  \<open>object_prototype env f\<close> lists the data properties that \<^verbatim>\<open>Object.prototype\<close> holds once
  \<^verbatim>\<open>require(f)\<close> has returned. A JSON file is parsed and not run, so it leaves none; before
  the call there are none. Properties that hold functions are outside the values
  modelled here.
\<close>

record node_env =
  require :: "string \<Rightarrow> jsval option"
  object_prototype :: "string \<Rightarrow> (string \<times> jsval) list"
  readFileSync :: "string \<Rightarrow> string option"
  basename :: "string \<Rightarrow> string"

datatype error =
    RequireError
  | ReadError
  | TypeError
  | Error string

section \<open>The flat path: \<^verbatim>\<open>csvToValueSet\<close>\<close>

text \<open>The options of the flat path. Each of the five metadata fields is a string or
  undefined: \<^verbatim>\<open>status\<close> is declared as required, yet line 112 guards it like the others.\<close>

record csvOptions =
  csvFile :: string
  status_opt :: "string option"
  url_opt :: "string option"
  name_opt :: "string option"
  description_opt :: "string option"
  id_opt :: "string option"

text \<open>\<^verbatim>\<open>const [code, system, display] = line.split(',')\<close>: a position the array does
  not have gives undefined.\<close>

definition element :: "string list \<Rightarrow> nat \<Rightarrow> jsval" where
  "element xs i = (if i < length xs then JStr (xs ! i) else JUndefined)"

definition destructure :: "string \<Rightarrow> jsval \<times> jsval \<times> jsval" where
  "destructure line =
     (let fields = split_on CHR '','' line
      in (element fields 0, element fields 1, element fields 2))"

text \<open>\<^verbatim>\<open>xs.findIndex(p)\<close>, with \<open>None\<close> for \<open>-1\<close>.\<close>

fun findIndex :: "('a \<Rightarrow> bool) \<Rightarrow> 'a list \<Rightarrow> nat option" where
  "findIndex p [] = None"
| "findIndex p (x # xs) = (if p x then Some 0 else map_option Suc (findIndex p xs))"

text \<open>The guard of lines 90 to 92, \<^verbatim>\<open>!include[systemIndex].concept\<close>: it fires on a
  group whose concept list is absent; a list that is there is an array, which is truthy
  even when empty.\<close>

definition concept_absent :: "ValueSetComposeInclude \<Rightarrow> bool" where
  "concept_absent grp = (case concept grp of None \<Rightarrow> True | Some cs \<Rightarrow> False)"

text \<open>Lines 90 to 94: re-initialize an absent list, then \<^verbatim>\<open>concept?.push(c)\<close>.\<close>

definition push_concept ::
  "ValueSetComposeInclude \<Rightarrow> ValueSetComposeIncludeConcept \<Rightarrow> ValueSetComposeInclude" where
  "push_concept grp c =
     (let grp1 = (if concept_absent grp then grp\<lparr>concept := Some []\<rparr> else grp)
      in case concept grp1 of
           None \<Rightarrow> grp1
         | Some cs \<Rightarrow> grp1\<lparr>concept := Some (cs @ [c])\<rparr>)"

text \<open>The body of the loop of lines 82 to 102, for one line.\<close>

definition loop_body :: "ValueSetComposeInclude list \<Rightarrow> string \<Rightarrow> ValueSetComposeInclude list" where
  "loop_body include line =
     (case destructure line of (code_v, system_v, display_v) \<Rightarrow>
        if \<not> truthy code_v then include
        else (case findIndex (\<lambda>grp. strict_equals (system grp) system_v) include of
                Some systemIndex \<Rightarrow>
                  include[systemIndex :=
                    push_concept (include ! systemIndex)
                      \<lparr>code = code_v, display = display_v, definition' = JUndefined\<rparr>]
              | None \<Rightarrow>
                  include @
                    [\<lparr>system = system_v,
                      concept = Some [\<lparr>code = code_v, display = display_v,
                                       definition' = JUndefined\<rparr>]\<rparr>]))"

fun csv_loop :: "ValueSetComposeInclude list \<Rightarrow> string list \<Rightarrow> ValueSetComposeInclude list" where
  "csv_loop include [] = include"
| "csv_loop include (line # rest) = csv_loop (loop_body include line) rest"

definition csvToValueSet :: "node_env \<Rightarrow> csvOptions \<Rightarrow> error + ValueSet" where
  "csvToValueSet env options =
     (case readFileSync env (csvFile options) of
        None \<Rightarrow> Inl ReadError
      | Some csv \<Rightarrow>
          (let lines = split_on (CHR 0x0A) csv;
               include = csv_loop [] (drop 1 lines);
               id_v = or_default (id_opt options)
                        (replace_suffix ''.csv'' [] (basename env (csvFile options)))
           in Inr \<lparr>resourceType = ''ValueSet'',
                    id' = JStr id_v,
                    url = JStr (or_default (url_opt options) (''http://hl7.org/fhir/ValueSet/'' @ id_v)),
                    name = JStr (or_default (name_opt options) id_v),
                    description = optional (description_opt options),
                    status = JStr (or_default (status_opt options) ''active''),
                    compose_include = include\<rparr>))"

section \<open>The structured path: \<^verbatim>\<open>codeSystemToValueSet\<close>\<close>

text \<open>
  The options of the structured path are an open bag (the parameter type carries an index
  signature, the loop of lines 27 to 32 walks its keys), so they are an object: the list
  of its own properties.
\<close>

text \<open>Reading an own property of an object; undefined when there is none.\<close>

definition read_prop :: "(string \<times> jsval) list \<Rightarrow> string \<Rightarrow> jsval" where
  "read_prop obj k = (case map_of obj k of None \<Rightarrow> JUndefined | Some v \<Rightarrow> v)"

text \<open>\<^verbatim>\<open>obj[k] = v\<close>: an existing property keeps its place.\<close>

definition assign :: "(string \<times> jsval) list \<Rightarrow> string \<Rightarrow> jsval \<Rightarrow> (string \<times> jsval) list" where
  "assign obj k v =
     (if k \<in> set (map fst obj)
      then map (\<lambda>(k', v'). if k' = k then (k', v) else (k', v')) obj
      else obj @ [(k, v)])"

fun show_nat :: "nat \<Rightarrow> string" where
  "show_nat n =
     (if n < 10 then [char_of (48 + n)]
      else show_nat (n div 10) @ [char_of (48 + n mod 10)])"

declare show_nat.simps [simp del]

text \<open>The own property names of a value that is neither undefined nor null: an object
  has its keys, an array and a string have their indices and \<^verbatim>\<open>length\<close>, a boolean and
  a number have none.\<close>

fun own_keys :: "jsval \<Rightarrow> string list" where
  "own_keys (JObj kvs) = map fst kvs"
| "own_keys (JArr xs) = map show_nat [0..<length xs] @ [''length'']"
| "own_keys (JStr s) = map show_nat [0..<length s] @ [''length'']"
| "own_keys v = []"

text \<open>Reading an own property \<open>k\<close> of such a value.\<close>

fun own_prop :: "jsval \<Rightarrow> string \<Rightarrow> jsval" where
  "own_prop (JObj kvs) k = read_prop kvs k"
| "own_prop (JArr xs) k =
     (if k = ''length'' then JNum (int (length xs))
      else (case find (\<lambda>i. show_nat i = k) [0..<length xs] of
              None \<Rightarrow> JUndefined
            | Some i \<Rightarrow> xs ! i))"
| "own_prop (JStr s) k =
     (if k = ''length'' then JNum (int (length s))
      else (case find (\<lambda>i. show_nat i = k) [0..<length s] of
              None \<Rightarrow> JUndefined
            | Some i \<Rightarrow> JStr [s ! i]))"
| "own_prop v k = JUndefined"

text \<open>
  Reading \<^verbatim>\<open>v.k\<close> on such a value goes through the prototype chain: the own property when
  the value has one of that name (whatever it holds), else what \<^verbatim>\<open>Object.prototype\<close>
  holds under that name, else undefined. The names the program reads this way are
  \<^verbatim>\<open>codeSystem\<close>, \<^verbatim>\<open>concept\<close>, \<^verbatim>\<open>url\<close>, \<^verbatim>\<open>code\<close>, \<^verbatim>\<open>display\<close>, \<^verbatim>\<open>definition\<close> and the
  metadata fields; the built-in prototypes of strings, arrays, numbers and booleans
  have none of them.
\<close>

definition get_prop :: "(string \<times> jsval) list \<Rightarrow> jsval \<Rightarrow> string \<Rightarrow> jsval" where
  "get_prop proto v k = (if k \<in> set (own_keys v) then own_prop v k else read_prop proto k)"

text \<open>\<^verbatim>\<open>v.k\<close>: a TypeError on undefined and on null.\<close>

definition member :: "(string \<times> jsval) list \<Rightarrow> jsval \<Rightarrow> string \<Rightarrow> error + jsval" where
  "member proto v k =
     (case v of
        JUndefined \<Rightarrow> Inl TypeError
      | JNull \<Rightarrow> Inl TypeError
      | _ \<Rightarrow> Inr (get_prop proto v k))"

text \<open>\<^verbatim>\<open>v.hasOwnProperty(p)\<close>: a TypeError on undefined and on null, and when a data
  property of that name, the value's own or one stored on \<^verbatim>\<open>Object.prototype\<close>, stands in
  the place of the method.\<close>

definition hasOwnProperty :: "(string \<times> jsval) list \<Rightarrow> jsval \<Rightarrow> string \<Rightarrow> error + bool" where
  "hasOwnProperty proto v p =
     (case v of
        JUndefined \<Rightarrow> Inl TypeError
      | JNull \<Rightarrow> Inl TypeError
      | _ \<Rightarrow> if ''hasOwnProperty'' \<in> set (own_keys v) \<or> ''hasOwnProperty'' \<in> set (map fst proto)
             then Inl TypeError
             else Inr (p \<in> set (own_keys v)))"

text \<open>
  The keys that \<^verbatim>\<open>for (const property in options)\<close> visits: the own keys in insertion
  order (they are taken not to look like array indices, which would come first; the
  options that the command builds have none), then the keys stored on
  \<^verbatim>\<open>Object.prototype\<close> that the options do not have themselves.
\<close>

definition for_in_keys :: "(string \<times> jsval) list \<Rightarrow> (string \<times> jsval) list \<Rightarrow> string list" where
  "for_in_keys proto options =
     map fst options @ filter (\<lambda>k. k \<notin> set (map fst options)) (map fst proto)"

text \<open>The loop of lines 27 to 32. No round adds or removes a key.\<close>

fun fill_missing ::
  "(string \<times> jsval) list \<Rightarrow> string list \<Rightarrow> (string \<times> jsval) list \<Rightarrow>
   error + (string \<times> jsval) list" where
  "fill_missing proto [] options = Inr options"
| "fill_missing proto (property # rest) options =
     (case hasOwnProperty proto (JObj options) property of
        Inl e \<Rightarrow> Inl e
      | Inr own \<Rightarrow>
          if own \<and> \<not> truthy (read_prop options property) then
            (case hasOwnProperty proto (get_prop proto (JObj options) ''codeSystem'') property of
               Inl e \<Rightarrow> Inl e
             | Inr has \<Rightarrow>
                 if has
                 then fill_missing proto rest
                        (assign options property
                           (own_prop (get_prop proto (JObj options) ''codeSystem'') property))
                 else fill_missing proto rest options)
          else fill_missing proto rest options)"

fun map_either :: "('a \<Rightarrow> error + 'b) \<Rightarrow> 'a list \<Rightarrow> error + 'b list" where
  "map_either f [] = Inr []"
| "map_either f (x # xs) =
     (case f x of
        Inl e \<Rightarrow> Inl e
      | Inr y \<Rightarrow> (case map_either f xs of Inl e \<Rightarrow> Inl e | Inr ys \<Rightarrow> Inr (y # ys)))"

text \<open>The callback of lines 51 to 55.\<close>

definition map_concept ::
  "(string \<times> jsval) list \<Rightarrow> jsval \<Rightarrow> error + ValueSetComposeIncludeConcept" where
  "map_concept proto c =
     (case member proto c ''code'' of
        Inl e \<Rightarrow> Inl e
      | Inr code_v \<Rightarrow>
          Inr \<lparr>code = code_v, display = get_prop proto c ''display'',
               definition' = get_prop proto c ''definition''\<rparr>)"

text \<open>\<^verbatim>\<open>v.map(callback)\<close>: only an array has the method.\<close>

definition concept_map ::
  "(string \<times> jsval) list \<Rightarrow> jsval \<Rightarrow> error + ValueSetComposeIncludeConcept list" where
  "concept_map proto v =
     (case v of JArr xs \<Rightarrow> map_either (map_concept proto) xs | _ \<Rightarrow> Inl TypeError)"

text \<open>\<^verbatim>\<open>require(options.jsonFile)\<close>: the exports, and what the module has left on
  \<^verbatim>\<open>Object.prototype\<close>.\<close>

definition load :: "node_env \<Rightarrow> jsval \<Rightarrow> error + jsval \<times> (string \<times> jsval) list" where
  "load env path =
     (case path of
        JStr f \<Rightarrow>
          (case require env f of
             None \<Rightarrow> Inl RequireError
           | Some m \<Rightarrow> Inr (m, object_prototype env f))
      | _ \<Rightarrow> Inl TypeError)"

text \<open>
  Line 25 binds the loaded document to the local \<^verbatim>\<open>codeSystem\<close>; every later line reads
  \<^verbatim>\<open>options.codeSystem\<close>, a property of the options.
\<close>

definition codeSystemToValueSet :: "node_env \<Rightarrow> (string \<times> jsval) list \<Rightarrow> error + ValueSet" where
  "codeSystemToValueSet env options0 =
     (case load env (read_prop options0 ''jsonFile'') of
        Inl e \<Rightarrow> Inl e
      | Inr (codeSystem, proto) \<Rightarrow>
          (case fill_missing proto (for_in_keys proto options0) options0 of
             Inl e \<Rightarrow> Inl e
           | Inr options \<Rightarrow>
               (case member proto (get_prop proto (JObj options) ''codeSystem'') ''concept'' of
                  Inl e \<Rightarrow> Inl e
                | Inr concept_v \<Rightarrow>
                    if \<not> truthy concept_v
                    then Inl (Error ''CodeSystem must have at least one concept'')
                    else (case concept_map proto concept_v of
                            Inl e \<Rightarrow> Inl e
                          | Inr concepts \<Rightarrow>
                              Inr \<lparr>resourceType = ''ValueSet'',
                                   id' = get_prop proto (JObj options) ''id'',
                                   url = get_prop proto (JObj options) ''url'',
                                   name = get_prop proto (JObj options) ''name'',
                                   description = get_prop proto (JObj options) ''description'',
                                   status = get_prop proto (JObj options) ''status'',
                                   compose_include =
                                     [\<lparr>system =
                                         get_prop proto
                                           (get_prop proto (JObj options) ''codeSystem'') ''url'',
                                       concept = Some concepts\<rparr>]\<rparr>))))"

section \<open>The command\<close>

text \<open>
  What the option parser hands to the action: \<^verbatim>\<open>--output [file]\<close> is absent, given bare
  (the value \<^verbatim>\<open>true\<close>) or given with a path; \<^verbatim>\<open>--url\<close>, \<^verbatim>\<open>--name\<close>, \<^verbatim>\<open>--description\<close> and
  \<^verbatim>\<open>--id\<close> are a string or undefined; \<^verbatim>\<open>--status\<close> is always a string, since line 131
  declares it with the default \<^verbatim>\<open>'draft'\<close>.
\<close>

datatype output_option = OutputAbsent | OutputFlag | OutputPath string

record commandOptions =
  output_arg :: output_option
  url_arg :: "string option"
  name_arg :: "string option"
  description_arg :: "string option"
  id_arg :: "string option"
  status_arg :: string

definition no_explicit_options :: commandOptions where
  "no_explicit_options =
     \<lparr>output_arg = OutputAbsent, url_arg = None, name_arg = None, description_arg = None,
      id_arg = None, status_arg = ''draft''\<rparr>"

text \<open>
  What the action asks of the system: a file write or a print. The text written or printed
  is \<^verbatim>\<open>JSON.stringify(valueSet, null, 2)\<close>, which is settled by the document, so the
  effect carries the document.
\<close>

datatype effect = WriteFileSync string ValueSet | ConsoleLog ValueSet

text \<open>Lines 160 and 161.\<close>

definition derive_outFile :: "string \<Rightarrow> string" where
  "derive_outFile file =
     replace_suffix ''.csv'' ''.json'' (replace_suffix ''.json'' ''-value-set.json'' file)"

text \<open>Lines 135 to 153: the choice of the path by the ending of the file name, and the
  options each conversion is called with.\<close>

definition convert :: "node_env \<Rightarrow> string \<Rightarrow> commandOptions \<Rightarrow> error + ValueSet" where
  "convert env file options =
     (if endsWith file ''.csv''
      then csvToValueSet env
             \<lparr>csvFile = file, status_opt = Some (status_arg options), url_opt = url_arg options,
              name_opt = name_arg options, description_opt = description_arg options,
              id_opt = id_arg options\<rparr>
      else codeSystemToValueSet env
             [(''jsonFile'', JStr file), (''status'', JStr (status_arg options)),
              (''url'', optional (url_arg options)), (''name'', optional (name_arg options)),
              (''description'', optional (description_arg options)),
              (''id'', optional (id_arg options))])"

text \<open>The action of lines 132 to 167; its result is the write or the print it asks for.
  A path given as the empty string is falsy, so the document is printed.\<close>

definition action :: "node_env \<Rightarrow> string \<Rightarrow> commandOptions \<Rightarrow> error + effect" where
  "action env file options =
     (case convert env file options of
        Inl e \<Rightarrow> Inl e
      | Inr valueSet \<Rightarrow>
          (case output_arg options of
             OutputAbsent \<Rightarrow> Inr (ConsoleLog valueSet)
           | OutputFlag \<Rightarrow> Inr (WriteFileSync (derive_outFile file) valueSet)
           | OutputPath outFile \<Rightarrow>
               if truthy (JStr outFile) then Inr (WriteFileSync outFile valueSet)
               else Inr (ConsoleLog valueSet)))"

text \<open>\<^verbatim>\<open>path.basename\<close> on POSIX: trailing slashes dropped, then what follows the last
  slash.\<close>

definition posix_basename :: "string \<Rightarrow> string" where
  "posix_basename p =
     (let trimmed = dropWhile (\<lambda>c. c = CHR ''/'') (rev p)
      in rev (takeWhile (\<lambda>c. c \<noteq> CHR ''/'') trimmed))"

section \<open>Notions of the specification\<close>

subsection \<open>Counting\<close>

definition concept_count :: "ValueSetComposeInclude \<Rightarrow> nat" where
  "concept_count grp = (case concept grp of None \<Rightarrow> 0 | Some cs \<Rightarrow> length cs)"

definition total_concepts :: "ValueSetComposeInclude list \<Rightarrow> nat" where
  "total_concepts include = sum_list (map concept_count include)"

text \<open>The first field of a line: what stands before its first comma.\<close>

definition code_field :: "string \<Rightarrow> string" where
  "code_field line = takeWhile (\<lambda>c. c \<noteq> CHR '','') line"

text \<open>The lines after line index 0.\<close>

definition data_lines :: "string \<Rightarrow> string list" where
  "data_lines csv = drop 1 (split_on (CHR 0x0A) csv)"

subsection \<open>Grouping, as the specification words it\<close>

text \<open>A flat record is the triple of code, system and display of a line that has a
  code.\<close>

type_synonym flat_record = "jsval \<times> jsval \<times> jsval"

definition records :: "string list \<Rightarrow> flat_record list" where
  "records ls = filter (\<lambda>(code_v, system_v, display_v). truthy code_v) (map destructure ls)"

definition record_system :: "flat_record \<Rightarrow> jsval" where
  "record_system r = (case r of (code_v, system_v, display_v) \<Rightarrow> system_v)"

definition record_concept :: "flat_record \<Rightarrow> ValueSetComposeIncludeConcept" where
  "record_concept r =
     (case r of (code_v, system_v, display_v) \<Rightarrow>
        \<lparr>code = code_v, display = display_v, definition' = JUndefined\<rparr>)"

text \<open>The distinct values of a sequence, each at the place of its first appearance.\<close>

fun first_appearances :: "'a list \<Rightarrow> 'a list" where
  "first_appearances [] = []"
| "first_appearances (x # xs) = x # filter (\<lambda>y. y \<noteq> x) (first_appearances xs)"

text \<open>The group of a system: the concepts of the records that carry exactly this system,
  in arrival order, repetitions kept.\<close>

definition group_of :: "flat_record list \<Rightarrow> jsval \<Rightarrow> ValueSetComposeInclude" where
  "group_of recs s =
     \<lparr>system = s,
      concept = Some (map record_concept (filter (\<lambda>r. record_system r = s) recs))\<rparr>"

definition grouping :: "flat_record list \<Rightarrow> ValueSetComposeInclude list" where
  "grouping recs = map (group_of recs) (first_appearances (map record_system recs))"

text \<open>Whether the guard of lines 90 to 92 fires in the round that handles \<open>line\<close> from the
  groups \<open>include\<close>.\<close>

definition guard_fires :: "ValueSetComposeInclude list \<Rightarrow> string \<Rightarrow> bool" where
  "guard_fires include line =
     (case destructure line of (code_v, system_v, display_v) \<Rightarrow>
        truthy code_v \<and>
        (case findIndex (\<lambda>grp. strict_equals (system grp) system_v) include of
           Some systemIndex \<Rightarrow> concept_absent (include ! systemIndex)
         | None \<Rightarrow> False))"

section \<open>Scenarios\<close>

definition line_feed :: string where
  "line_feed = [CHR 0x0A]"

text \<open>The flat file of the first end-to-end scenario, a file with a header alone, and
  the two lines of the system-matching scenario after a line with a system, under a
  header.\<close>

definition flat_file :: string where
  "flat_file =
     ''code,system,display'' @ line_feed @ ''A,http://sys,Alpha'' @ line_feed @
     ''B,http://sys,Beta'' @ line_feed @ ''C,http://other,Gamma'' @ line_feed"

definition header_file :: string where
  "header_file = ''code,system,display'' @ line_feed"

definition sparse_file :: string where
  "sparse_file =
     ''code,system,display'' @ line_feed @ ''A0,http://sys,Zero'' @ line_feed @
     ''A1,,Display One'' @ line_feed @ ''A2''"

text \<open>The structured document of the second end-to-end scenario, and the same with an
  empty concept list. In the file system below the first is what \<^verbatim>\<open>/data/codesystem.json\<close>
  holds; the module \<^verbatim>\<open>/data/codesystem.js\<close> exports it and stores it as
  \<^verbatim>\<open>Object.prototype.codeSystem\<close>.\<close>

definition document :: jsval where
  "document =
     JObj [(''url'', JStr ''http://sys''),
           (''concept'', JArr [JObj [(''code'', JStr ''A''), (''display'', JStr ''Alpha'')]])]"

definition empty_document :: jsval where
  "empty_document = JObj [(''url'', JStr ''http://sys''), (''concept'', JArr [])]"

definition files :: node_env where
  "files =
     \<lparr>require = (\<lambda>f. if f = ''/data/codesystem.json'' then Some document
                      else if f = ''/data/empty.json'' then Some empty_document
                      else if f = ''/data/codesystem.js'' then Some document
                      else None),
      object_prototype =
        (\<lambda>f. if f = ''/data/codesystem.js'' then [(''codeSystem'', document)] else []),
      readFileSync = (\<lambda>f. if f = ''/data/codes.csv'' then Some flat_file
                           else if f = ''/data/header.csv'' then Some header_file
                           else if f = ''/data/sparse.csv'' then Some sparse_file
                           else None),
      basename = posix_basename\<rparr>"

definition csv_defaults :: "string \<Rightarrow> csvOptions" where
  "csv_defaults file =
     \<lparr>csvFile = file, status_opt = None, url_opt = None, name_opt = None,
      description_opt = None, id_opt = None\<rparr>"

text \<open>The options of a run with a bare \<^verbatim>\<open>--output\<close> and nothing else.\<close>

definition bare_output_options :: commandOptions where
  "bare_output_options =
     \<lparr>output_arg = OutputFlag, url_arg = None, name_arg = None, description_arg = None,
      id_arg = None, status_arg = ''draft''\<rparr>"

section \<open>The flat path counts every line that has a code\<close>

lemma split_on_not_Nil: "split_on c s \<noteq> []"
  by (induction s) (auto split: list.splits)

lemma hd_split_on: "hd (split_on c s) = takeWhile (\<lambda>x. x \<noteq> c) s"
  by (induction s) (auto split: list.splits simp: split_on_not_Nil)

lemma element_0_split: "element (split_on c s) 0 = JStr (takeWhile (\<lambda>x. x \<noteq> c) s)"
  using split_on_not_Nil [of c s] hd_split_on [of c s]
  by (cases "split_on c s") (auto simp: element_def)

lemma destructure_code: "fst (destructure line) = JStr (code_field line)"
  by (simp add: destructure_def Let_def element_0_split code_field_def)

lemma findIndex_Some: "findIndex p xs = Some i \<Longrightarrow> i < length xs \<and> p (xs ! i)"
  by (induction xs arbitrary: i) (auto split: if_splits)

lemma findIndex_None: "findIndex p xs = None \<longleftrightarrow> (\<forall>x \<in> set xs. \<not> p x)"
  by (induction xs) auto

lemma concept_count_push:
  "concept_count (push_concept grp c) = concept_count grp + 1"
  by (auto simp: concept_count_def push_concept_def concept_absent_def Let_def
      split: option.splits)

lemma total_concepts_update:
  "i < length inc \<Longrightarrow>
   total_concepts (inc[i := push_concept (inc ! i) c]) = total_concepts inc + 1"
  by (simp add: total_concepts_def map_update sum_list_update concept_count_push)

lemma total_concepts_loop_body:
  "total_concepts (loop_body inc line) =
     total_concepts inc + (if code_field line \<noteq> [] then 1 else 0)"
proof (cases "destructure line")
  case (fields code_v system_v display_v)
  then have c: "code_v = JStr (code_field line)"
    using destructure_code [of line] by simp
  show ?thesis
  proof (cases "findIndex (\<lambda>grp. strict_equals (system grp) system_v) inc")
    case None
    then show ?thesis using fields c
      by (simp add: loop_body_def total_concepts_def concept_count_def)
  next
    case (Some i)
    then have "i < length inc" by (auto dest: findIndex_Some)
    then show ?thesis using fields c Some
      by (simp add: loop_body_def total_concepts_update)
  qed
qed

lemma total_concepts_csv_loop:
  "total_concepts (csv_loop inc ls) =
     total_concepts inc + length (filter (\<lambda>line. code_field line \<noteq> []) ls)"
  by (induction ls arbitrary: inc) (simp_all add: total_concepts_loop_body)

lemma loop_body_skip: "code_field line = [] \<Longrightarrow> loop_body inc line = inc"
  using destructure_code [of line]
  by (cases "destructure line") (simp add: loop_body_def)

lemma total_concepts_Nil: "total_concepts [] = 0"
  by (simp add: total_concepts_def)

text \<open>
  Claim C3. Whenever the flat file can be read, the flat conversion returns a document,
  and the concepts of all its inclusion groups together are as many as the lines after
  line index 0 whose first field is not empty. A line whose first field is empty leaves
  the groups as they were: it adds no record.
\<close>

theorem csv_concept_count:
  assumes "readFileSync env (csvFile options) = Some csv"
  shows "(\<exists>valueSet. csvToValueSet env options = Inr valueSet \<and>
            total_concepts (compose_include valueSet) =
              length (filter (\<lambda>line. code_field line \<noteq> []) (data_lines csv))) \<and>
         (\<forall>include line. code_field line = [] \<longrightarrow> loop_body include line = include)"
proof -
  have "total_concepts (csv_loop [] (data_lines csv)) =
          length (filter (\<lambda>line. code_field line \<noteq> []) (data_lines csv))"
    by (simp add: total_concepts_csv_loop total_concepts_Nil)
  then show ?thesis
    using assms by (simp add: csvToValueSet_def Let_def data_lines_def loop_body_skip)
qed

lemma data_lines_flat_file:
  "data_lines flat_file =
     [''A,http://sys,Alpha'', ''B,http://sys,Beta'', ''C,http://other,Gamma'', []]"
  by (simp add: data_lines_def flat_file_def line_feed_def)

lemma read_codes_csv:
  "readFileSync files (csvFile (csv_defaults ''/data/codes.csv'')) = Some flat_file"
  by (simp add: files_def csv_defaults_def)

theorem csv_concept_count_witness:
  "readFileSync files (csvFile (csv_defaults ''/data/codes.csv'')) = Some flat_file \<and>
   (\<exists>valueSet. csvToValueSet files (csv_defaults ''/data/codes.csv'') = Inr valueSet \<and>
      total_concepts (compose_include valueSet) = 3) \<and>
   code_field [] = [] \<and> loop_body [] [] = []"
proof -
  have n: "length (filter (\<lambda>line. code_field line \<noteq> []) (data_lines flat_file)) = 3"
    by (simp add: data_lines_flat_file code_field_def)
  show ?thesis
    using csv_concept_count [OF read_codes_csv] read_codes_csv n by (simp add: code_field_def)
qed

section \<open>The flat path groups by system, in order of first appearance\<close>

lemma set_first_appearances: "set (first_appearances xs) = set xs"
  by (induction xs) auto

lemma distinct_first_appearances: "distinct (first_appearances xs)"
  by (induction xs) (auto simp: set_first_appearances)

lemma first_appearances_snoc:
  "first_appearances (xs @ [x]) =
     (if x \<in> set xs then first_appearances xs else first_appearances xs @ [x])"
  by (induction xs) auto

lemma csv_loop_append: "csv_loop inc (xs @ ys) = csv_loop (csv_loop inc xs) ys"
  by (induction xs arbitrary: inc) simp_all

lemma records_snoc:
  "records (ls @ [l]) =
     records ls @ (if truthy (fst (destructure l)) then [destructure l] else [])"
  by (cases "destructure l") (simp add: records_def)

lemma group_of_snoc_other:
  "record_system r \<noteq> s \<Longrightarrow> group_of (recs @ [r]) s = group_of recs s"
  by (simp add: group_of_def)

lemma group_of_snoc_same:
  "group_of (recs @ [r]) (record_system r) =
     push_concept (group_of recs (record_system r)) (record_concept r)"
  by (simp add: group_of_def push_concept_def concept_absent_def)

lemma group_of_fresh:
  assumes "record_system r \<notin> set (map record_system recs)"
  shows "group_of (recs @ [r]) (record_system r) =
           \<lparr>system = record_system r, concept = Some [record_concept r]\<rparr>"
proof -
  from assms have "filter (\<lambda>r'. record_system r' = record_system r) recs = []"
    by (induction recs) auto
  then show ?thesis by (simp add: group_of_def)
qed

lemma system_group_of: "system (group_of recs s) = s"
  by (simp add: group_of_def)

text \<open>A round of the loop for a record whose system already has a group.\<close>

lemma grouping_snoc_known:
  assumes "record_system r \<in> set (map record_system recs)"
  shows "\<exists>i. findIndex (\<lambda>grp. strict_equals (system grp) (record_system r)) (grouping recs)
               = Some i \<and>
             (grouping recs)[i := push_concept (grouping recs ! i) (record_concept r)]
               = grouping (recs @ [r])"
proof -
  let ?fa = "first_appearances (map record_system recs)"
  let ?s = "record_system r"
  let ?upd = "\<lambda>i. (grouping recs)[i := push_concept (grouping recs ! i) (record_concept r)]"
  have "?s \<in> set ?fa" using assms by (simp add: set_first_appearances)
  then have "\<exists>grp \<in> set (grouping recs). strict_equals (system grp) ?s"
    by (auto simp: grouping_def strict_equals_def system_group_of)
  then obtain i where
    i: "findIndex (\<lambda>grp. strict_equals (system grp) ?s) (grouping recs) = Some i"
    using findIndex_None [of "\<lambda>grp. strict_equals (system grp) ?s" "grouping recs"]
    by (cases "findIndex (\<lambda>grp. strict_equals (system grp) ?s) (grouping recs)") auto
  from findIndex_Some [OF i] have len: "i < length ?fa" and at: "?fa ! i = ?s"
    by (auto simp: grouping_def strict_equals_def system_group_of)
  have fa': "first_appearances (map record_system (recs @ [r])) = ?fa"
    using assms by (simp add: first_appearances_snoc)
  have "?upd i = grouping (recs @ [r])"
  proof (rule nth_equalityI)
    show "length (?upd i) = length (grouping (recs @ [r]))"
      using fa' by (simp add: grouping_def)
  next
    fix j assume "j < length (?upd i)"
    then have j: "j < length ?fa" by (simp add: grouping_def)
    show "?upd i ! j = grouping (recs @ [r]) ! j"
    proof (cases "j = i")
      case True
      then show ?thesis
        using len at fa' group_of_snoc_same [of recs r] by (simp add: grouping_def)
    next
      case False
      then have "?fa ! j \<noteq> ?s"
        using distinct_first_appearances [of "map record_system recs"] j len at
          nth_eq_iff_index_eq [of ?fa j i]
        by auto
      then show ?thesis
        using False j len fa' group_of_snoc_other [of r "?fa ! j" recs]
        by (simp add: grouping_def)
    qed
  qed
  with i show ?thesis by blast
qed

text \<open>A round of the loop for a record whose system is new.\<close>

lemma grouping_snoc_fresh:
  assumes "record_system r \<notin> set (map record_system recs)"
  shows "findIndex (\<lambda>grp. strict_equals (system grp) (record_system r)) (grouping recs) = None \<and>
         grouping recs @ [\<lparr>system = record_system r, concept = Some [record_concept r]\<rparr>]
           = grouping (recs @ [r])"
proof -
  let ?fa = "first_appearances (map record_system recs)"
  have notin: "record_system r \<notin> set ?fa"
    using assms by (simp add: set_first_appearances)
  then have none:
    "findIndex (\<lambda>grp. strict_equals (system grp) (record_system r)) (grouping recs) = None"
    by (auto simp: findIndex_None grouping_def strict_equals_def system_group_of)
  have fa': "first_appearances (map record_system (recs @ [r])) = ?fa @ [record_system r]"
    using assms by (simp add: first_appearances_snoc)
  have same: "map (group_of (recs @ [r])) ?fa = map (group_of recs) ?fa"
    using notin by (intro map_cong refl group_of_snoc_other) auto
  show ?thesis
    using none fa' same group_of_fresh [OF assms] by (simp add: grouping_def)
qed

lemma loop_body_grouping:
  "loop_body (grouping recs) line =
     grouping (recs @ (if truthy (fst (destructure line)) then [destructure line] else []))"
proof (cases "destructure line")
  case (fields code_v system_v display_v)
  show ?thesis
  proof (cases "truthy code_v")
    case False
    then show ?thesis using fields by (simp add: loop_body_def)
  next
    case True
    let ?r = "(code_v, system_v, display_v)"
    have rs: "record_system ?r = system_v"
      and rc: "record_concept ?r =
                 \<lparr>code = code_v, display = display_v, definition' = JUndefined\<rparr>"
      by (simp_all add: record_system_def record_concept_def)
    show ?thesis
    proof (cases "system_v \<in> set (map record_system recs)")
      case known: True
      then obtain i where
        "findIndex (\<lambda>grp. strict_equals (system grp) system_v) (grouping recs) = Some i"
        and "(grouping recs)[i := push_concept (grouping recs ! i) (record_concept ?r)]
               = grouping (recs @ [?r])"
        using grouping_snoc_known [of ?r recs] rs by auto
      then show ?thesis using fields True rc by (simp add: loop_body_def)
    next
      case fresh: False
      then show ?thesis
        using grouping_snoc_fresh [of ?r recs] fields True rs rc by (simp add: loop_body_def)
    qed
  qed
qed

lemma csv_loop_grouping: "csv_loop [] ls = grouping (records ls)"
proof (induction ls rule: rev_induct)
  case Nil
  show ?case by (simp add: grouping_def records_def)
next
  case (snoc l ls)
  then show ?case
    by (simp add: csv_loop_append loop_body_grouping records_snoc)
qed

lemma csvToValueSet_include:
  "readFileSync env (csvFile options) = Some csv \<Longrightarrow>
   \<exists>valueSet. csvToValueSet env options = Inr valueSet \<and>
     compose_include valueSet = grouping (records (data_lines csv))"
  by (simp add: csvToValueSet_def Let_def data_lines_def csv_loop_grouping)

lemma first_appearances_remdups: "first_appearances xs = rev (remdups (rev xs))"
  by (induction xs rule: rev_induct) (simp_all add: first_appearances_snoc)

text \<open>
  Claim C4. Whenever the flat file can be read, the systems of the inclusion groups of the
  output, in output order, are the distinct systems of the records, each at the place of
  its first appearance; and the concepts of every group are the concepts of the records
  that carry the group's system, in arrival order, with nothing sorted and no repeated
  code removed.
\<close>

theorem csv_grouping_order:
  assumes "readFileSync env (csvFile options) = Some csv"
  shows "\<exists>valueSet. csvToValueSet env options = Inr valueSet \<and>
           map system (compose_include valueSet) =
             first_appearances (map record_system (records (data_lines csv))) \<and>
           (\<forall>grp \<in> set (compose_include valueSet).
              concept grp =
                Some (map record_concept
                       (filter (\<lambda>r. record_system r = system grp) (records (data_lines csv)))))"
proof -
  from csvToValueSet_include [OF assms] obtain valueSet where
    v: "csvToValueSet env options = Inr valueSet"
    and g: "compose_include valueSet = grouping (records (data_lines csv))"
    by blast
  have "map system (grouping (records (data_lines csv))) =
          first_appearances (map record_system (records (data_lines csv)))"
    by (simp add: grouping_def system_group_of comp_def)
  moreover have "\<forall>grp \<in> set (grouping (records (data_lines csv))).
      concept grp = Some (map record_concept
        (filter (\<lambda>r. record_system r = system grp) (records (data_lines csv))))"
    by (auto simp: grouping_def group_of_def)
  ultimately show ?thesis using v g by simp
qed

lemma records_flat_file:
  "records (data_lines flat_file) =
     [(JStr ''A'', JStr ''http://sys'', JStr ''Alpha''),
      (JStr ''B'', JStr ''http://sys'', JStr ''Beta''),
      (JStr ''C'', JStr ''http://other'', JStr ''Gamma'')]"
  by (simp add: data_lines_flat_file records_def destructure_def element_def)

theorem csv_grouping_order_witness:
  "readFileSync files (csvFile (csv_defaults ''/data/codes.csv'')) = Some flat_file \<and>
   (\<exists>valueSet. csvToValueSet files (csv_defaults ''/data/codes.csv'') = Inr valueSet \<and>
      map system (compose_include valueSet) = [JStr ''http://sys'', JStr ''http://other''] \<and>
      map concept (compose_include valueSet) =
        [Some [\<lparr>code = JStr ''A'', display = JStr ''Alpha'', definition' = JUndefined\<rparr>,
               \<lparr>code = JStr ''B'', display = JStr ''Beta'', definition' = JUndefined\<rparr>],
         Some [\<lparr>code = JStr ''C'', display = JStr ''Gamma'', definition' = JUndefined\<rparr>]])"
proof -
  from csv_grouping_order [OF read_codes_csv] obtain v where
    v: "csvToValueSet files (csv_defaults ''/data/codes.csv'') = Inr v"
    and s: "map system (compose_include v) =
              first_appearances (map record_system (records (data_lines flat_file)))"
    and c: "\<forall>grp \<in> set (compose_include v).
              concept grp = Some (map record_concept
                (filter (\<lambda>r. record_system r = system grp) (records (data_lines flat_file))))"
    by blast
  from s have s': "map system (compose_include v) = [JStr ''http://sys'', JStr ''http://other'']"
    by (simp add: records_flat_file record_system_def)
  then obtain g1 g2 where inc: "compose_include v = [g1, g2]"
    and g1: "system g1 = JStr ''http://sys''" and g2: "system g2 = JStr ''http://other''"
    by (auto simp: map_eq_Cons_conv)
  from c inc g1 g2 have
    "map concept (compose_include v) =
        [Some [\<lparr>code = JStr ''A'', display = JStr ''Alpha'', definition' = JUndefined\<rparr>,
               \<lparr>code = JStr ''B'', display = JStr ''Beta'', definition' = JUndefined\<rparr>],
         Some [\<lparr>code = JStr ''C'', display = JStr ''Gamma'', definition' = JUndefined\<rparr>]]"
    by (simp add: records_flat_file record_system_def record_concept_def)
  with v s' read_codes_csv show ?thesis by simp
qed

section \<open>No group of the flat path is empty\<close>

lemma grouping_concepts:
  assumes "grp \<in> set (grouping recs)"
  shows "\<exists>cs. concept grp = Some cs \<and> cs \<noteq> []"
proof -
  from assms obtain s where s: "s \<in> set (map record_system recs)" and grp: "grp = group_of recs s"
    by (auto simp: grouping_def set_first_appearances)
  from s have "filter (\<lambda>r. record_system r = s) recs \<noteq> []"
    by (auto simp: filter_empty_conv)
  with grp show ?thesis by (simp add: group_of_def)
qed

lemma guard_never_fires: "\<not> guard_fires (csv_loop [] before) line"
proof (cases "destructure line")
  case (fields code_v system_v display_v)
  show ?thesis
  proof (cases "findIndex (\<lambda>grp. strict_equals (system grp) system_v) (grouping (records before))")
    case None
    then show ?thesis using fields by (simp add: guard_fires_def csv_loop_grouping)
  next
    case (Some i)
    then have "grouping (records before) ! i \<in> set (grouping (records before))"
      by (auto dest: findIndex_Some)
    then have "\<not> concept_absent (grouping (records before) ! i)"
      using grouping_concepts [of "grouping (records before) ! i" "records before"]
      by (auto simp: concept_absent_def)
    then show ?thesis using fields Some by (simp add: guard_fires_def csv_loop_grouping)
  qed
qed

text \<open>
  Claim C9. Whenever the flat file can be read, every inclusion group of the output has a
  concept list that is there and is not empty; and at every round of the loop, whatever
  lines came before, the guard that re-initializes an absent concept list does not fire.
\<close>

theorem flat_groups_nonempty:
  assumes "readFileSync env (csvFile options) = Some csv"
  shows "\<exists>valueSet. csvToValueSet env options = Inr valueSet \<and>
           (\<forall>grp \<in> set (compose_include valueSet). \<exists>cs. concept grp = Some cs \<and> cs \<noteq> []) \<and>
           (\<forall>before line after. data_lines csv = before @ line # after \<longrightarrow>
              compose_include valueSet = csv_loop (loop_body (csv_loop [] before) line) after \<and>
              \<not> guard_fires (csv_loop [] before) line)"
proof -
  from csvToValueSet_include [OF assms] obtain valueSet where
    v: "csvToValueSet env options = Inr valueSet"
    and g: "compose_include valueSet = grouping (records (data_lines csv))"
    by blast
  have "\<forall>grp \<in> set (compose_include valueSet). \<exists>cs. concept grp = Some cs \<and> cs \<noteq> []"
    using g grouping_concepts by simp
  moreover have "\<forall>before line after. data_lines csv = before @ line # after \<longrightarrow>
       compose_include valueSet = csv_loop (loop_body (csv_loop [] before) line) after"
    using g by (simp add: csv_loop_grouping [symmetric] csv_loop_append)
  ultimately show ?thesis using v guard_never_fires by blast
qed

lemma csv_loop_flat_file:
  "csv_loop [] (data_lines flat_file) =
     [\<lparr>system = JStr ''http://sys'',
       concept = Some [\<lparr>code = JStr ''A'', display = JStr ''Alpha'', definition' = JUndefined\<rparr>,
                       \<lparr>code = JStr ''B'', display = JStr ''Beta'', definition' = JUndefined\<rparr>]\<rparr>,
      \<lparr>system = JStr ''http://other'',
       concept = Some [\<lparr>code = JStr ''C'', display = JStr ''Gamma'', definition' = JUndefined\<rparr>]\<rparr>]"
  by (simp add: csv_loop_grouping records_flat_file grouping_def group_of_def
      record_system_def record_concept_def)

theorem flat_groups_nonempty_witness:
  "readFileSync files (csvFile (csv_defaults ''/data/codes.csv'')) = Some flat_file \<and>
   (\<exists>valueSet. csvToValueSet files (csv_defaults ''/data/codes.csv'') = Inr valueSet \<and>
      map concept_count (compose_include valueSet) = [2, 1]) \<and>
   data_lines flat_file =
     [''A,http://sys,Alpha''] @ ''B,http://sys,Beta'' # [''C,http://other,Gamma'', []] \<and>
   \<not> guard_fires (csv_loop [] [''A,http://sys,Alpha'']) ''B,http://sys,Beta''"
proof -
  from flat_groups_nonempty [OF read_codes_csv] obtain v where
    v: "csvToValueSet files (csv_defaults ''/data/codes.csv'') = Inr v"
    and c: "\<forall>grp \<in> set (compose_include v). \<exists>cs. concept grp = Some cs \<and> cs \<noteq> []"
    and g: "\<forall>before line after. data_lines flat_file = before @ line # after \<longrightarrow>
              compose_include v = csv_loop (loop_body (csv_loop [] before) line) after \<and>
              \<not> guard_fires (csv_loop [] before) line"
    by blast
  have d: "data_lines flat_file =
     [''A,http://sys,Alpha''] @ ''B,http://sys,Beta'' # [''C,http://other,Gamma'', []]"
    by (simp add: data_lines_flat_file)
  from g d have n: "\<not> guard_fires (csv_loop [] [''A,http://sys,Alpha'']) ''B,http://sys,Beta''"
    by blast
  have "compose_include v = csv_loop [] (data_lines flat_file)"
    using v read_codes_csv by (auto simp: csvToValueSet_def Let_def data_lines_def)
  then have "map concept_count (compose_include v) = [2, 1]"
    by (simp add: csv_loop_flat_file concept_count_def)
  with v n d read_codes_csv show ?thesis by simp
qed

section \<open>Systems are matched by exact equality\<close>

lemma split_on_no_separator: "c \<notin> set s \<Longrightarrow> split_on c s = [s]"
  by (induction s) auto

lemma destructure_code_alone:
  "CHR '','' \<notin> set line \<Longrightarrow> destructure line = (JStr line, JUndefined, JUndefined)"
  by (simp add: destructure_def split_on_no_separator element_def)

lemma filter_eq_distinct: "distinct xs \<Longrightarrow> x \<in> set xs \<Longrightarrow> filter (\<lambda>y. y = x) xs = [x]"
  by (induction xs) (auto simp: filter_empty_conv)

lemma grouping_one_group:
  assumes "r \<in> set recs"
  shows "filter (\<lambda>grp. system grp = record_system r) (grouping recs) =
           [group_of recs (record_system r)]"
proof -
  let ?fa = "first_appearances (map record_system recs)"
  have "filter (\<lambda>grp. system grp = record_system r) (grouping recs) =
          map (group_of recs) (filter (\<lambda>s. s = record_system r) ?fa)"
    by (simp add: grouping_def filter_map comp_def system_group_of)
  moreover have "filter (\<lambda>s. s = record_system r) ?fa = [record_system r]"
  proof -
    have "record_system r \<in> set ?fa" using assms by (simp add: set_first_appearances)
    then show ?thesis
      using distinct_first_appearances [of "map record_system recs"]
      by (simp add: filter_eq_distinct)
  qed
  ultimately show ?thesis by simp
qed

lemma grouping_systems_distinct: "distinct (map system (grouping recs))"
  by (simp add: grouping_def comp_def system_group_of distinct_first_appearances)

lemma grouping_group_concepts:
  "grp \<in> set (grouping recs) \<Longrightarrow>
   concept grp = Some (map record_concept (filter (\<lambda>r. record_system r = system grp) recs))"
  by (auto simp: grouping_def group_of_def)

text \<open>
  Claim C7. Whenever the flat file can be read: no two groups of the output have the same
  system; every record has exactly one group whose system is the record's system, the
  same value of the same type, and the concepts of that group are the concepts of
  exactly the records with that system; so the group of the empty string holds the
  records whose system is the empty string and no other, and the group of undefined
  holds the records that have no system field and no other. The four lines
  \<^verbatim>\<open>A0,http://sys,Zero\<close>, \<^verbatim>\<open>A1,,Display One\<close>, \<^verbatim>\<open>A2\<close> and \<^verbatim>\<open>A3,,Three\<close> end up in
  three groups. A line that is a code alone is the record of that code with undefined
  system and undefined display, and its concept in the output carries the code and an
  undefined display.
\<close>

theorem system_matching_exact:
  assumes "readFileSync env (csvFile options) = Some csv"
  shows "(\<exists>valueSet. csvToValueSet env options = Inr valueSet \<and>
            distinct (map system (compose_include valueSet)) \<and>
            (\<forall>r \<in> set (records (data_lines csv)).
               \<exists>grp. filter (\<lambda>g. system g = record_system r) (compose_include valueSet) = [grp] \<and>
                     concept grp =
                       Some (map record_concept
                              (filter (\<lambda>r'. record_system r' = record_system r)
                                 (records (data_lines csv))))) \<and>
            (\<forall>grp \<in> set (compose_include valueSet).
               (system grp = JStr [] \<longrightarrow>
                  concept grp =
                    Some (map record_concept
                           (filter (\<lambda>r. record_system r = JStr []) (records (data_lines csv))))) \<and>
               (system grp = JUndefined \<longrightarrow>
                  concept grp =
                    Some (map record_concept
                           (filter (\<lambda>r. record_system r = JUndefined)
                              (records (data_lines csv)))))) \<and>
            (\<forall>line \<in> set (data_lines csv). line \<noteq> [] \<and> CHR '','' \<notin> set line \<longrightarrow>
               (\<exists>grp \<in> set (compose_include valueSet). \<exists>cs.
                  system grp = JUndefined \<and> concept grp = Some cs \<and>
                  \<lparr>code = JStr line, display = JUndefined, definition' = JUndefined\<rparr> \<in> set cs))) \<and>
         csv_loop [] [''A0,http://sys,Zero'', ''A1,,Display One'', ''A2'', ''A3,,Three''] =
           [\<lparr>system = JStr ''http://sys'',
             concept = Some [\<lparr>code = JStr ''A0'', display = JStr ''Zero'',
                              definition' = JUndefined\<rparr>]\<rparr>,
            \<lparr>system = JStr [],
             concept = Some [\<lparr>code = JStr ''A1'', display = JStr ''Display One'',
                              definition' = JUndefined\<rparr>,
                             \<lparr>code = JStr ''A3'', display = JStr ''Three'',
                              definition' = JUndefined\<rparr>]\<rparr>,
            \<lparr>system = JUndefined,
             concept = Some [\<lparr>code = JStr ''A2'', display = JUndefined,
                              definition' = JUndefined\<rparr>]\<rparr>] \<and>
         (\<forall>line. line \<noteq> [] \<and> CHR '','' \<notin> set line \<longrightarrow>
            destructure line = (JStr line, JUndefined, JUndefined) \<and>
            loop_body [] line =
              [\<lparr>system = JUndefined,
                concept = Some [\<lparr>code = JStr line, display = JUndefined,
                                 definition' = JUndefined\<rparr>]\<rparr>])"
proof -
  let ?recs = "records (data_lines csv)"
  from csvToValueSet_include [OF assms] obtain valueSet where
    v: "csvToValueSet env options = Inr valueSet"
    and g: "compose_include valueSet = grouping ?recs"
    by blast
  have dist: "distinct (map system (compose_include valueSet))"
    using g by (simp add: grouping_systems_distinct)
  have one: "\<forall>r \<in> set ?recs.
      \<exists>grp. filter (\<lambda>g. system g = record_system r) (compose_include valueSet) = [grp] \<and>
            concept grp =
              Some (map record_concept (filter (\<lambda>r'. record_system r' = record_system r) ?recs))"
    using g by (simp add: grouping_one_group group_of_def)
  have named: "\<forall>grp \<in> set (compose_include valueSet).
      (system grp = JStr [] \<longrightarrow>
         concept grp = Some (map record_concept (filter (\<lambda>r. record_system r = JStr []) ?recs))) \<and>
      (system grp = JUndefined \<longrightarrow>
         concept grp =
           Some (map record_concept (filter (\<lambda>r. record_system r = JUndefined) ?recs)))"
    using g grouping_group_concepts [of _ ?recs] by auto
  have out: "\<forall>line \<in> set (data_lines csv). line \<noteq> [] \<and> CHR '','' \<notin> set line \<longrightarrow>
               (\<exists>grp \<in> set (compose_include valueSet). \<exists>cs.
                  system grp = JUndefined \<and> concept grp = Some cs \<and>
                  \<lparr>code = JStr line, display = JUndefined, definition' = JUndefined\<rparr> \<in> set cs)"
  proof (intro ballI impI)
    fix line assume l: "line \<in> set (data_lines csv)" and "line \<noteq> [] \<and> CHR '','' \<notin> set line"
    then have d: "destructure line = (JStr line, JUndefined, JUndefined)" and ne: "line \<noteq> []"
      by (simp_all add: destructure_code_alone)
    let ?r = "(JStr line, JUndefined, JUndefined)"
    have r: "?r \<in> set ?recs"
      using l d ne by (force simp: records_def)
    then have "record_system ?r \<in> set (first_appearances (map record_system ?recs))"
      by (simp add: set_first_appearances)
    then have grp: "group_of ?recs JUndefined \<in> set (compose_include valueSet)"
      using g by (simp add: grouping_def record_system_def)
    have "?r \<in> set (filter (\<lambda>r'. record_system r' = JUndefined) ?recs)"
      using r by (simp add: record_system_def)
    then have "record_concept ?r \<in> set (map record_concept
        (filter (\<lambda>r'. record_system r' = JUndefined) ?recs))"
      unfolding set_map by (rule imageI)
    then have "\<lparr>code = JStr line, display = JUndefined, definition' = JUndefined\<rparr> \<in>
        set (map record_concept (filter (\<lambda>r'. record_system r' = JUndefined) ?recs))"
      by (simp add: record_concept_def)
    then show "\<exists>grp \<in> set (compose_include valueSet). \<exists>cs.
                  system grp = JUndefined \<and> concept grp = Some cs \<and>
                  \<lparr>code = JStr line, display = JUndefined, definition' = JUndefined\<rparr> \<in> set cs"
      by (intro bexI [OF _ grp]) (simp add: group_of_def)
  qed
  have three: "csv_loop [] [''A0,http://sys,Zero'', ''A1,,Display One'', ''A2'', ''A3,,Three''] =
           [\<lparr>system = JStr ''http://sys'',
             concept = Some [\<lparr>code = JStr ''A0'', display = JStr ''Zero'',
                              definition' = JUndefined\<rparr>]\<rparr>,
            \<lparr>system = JStr [],
             concept = Some [\<lparr>code = JStr ''A1'', display = JStr ''Display One'',
                              definition' = JUndefined\<rparr>,
                             \<lparr>code = JStr ''A3'', display = JStr ''Three'',
                              definition' = JUndefined\<rparr>]\<rparr>,
            \<lparr>system = JUndefined,
             concept = Some [\<lparr>code = JStr ''A2'', display = JUndefined,
                              definition' = JUndefined\<rparr>]\<rparr>]"
    by (simp add: loop_body_def destructure_def element_def strict_equals_def push_concept_def
        concept_absent_def)
  have alone: "\<forall>line. line \<noteq> [] \<and> CHR '','' \<notin> set line \<longrightarrow>
            destructure line = (JStr line, JUndefined, JUndefined) \<and>
            loop_body [] line =
              [\<lparr>system = JUndefined,
                concept = Some [\<lparr>code = JStr line, display = JUndefined,
                                 definition' = JUndefined\<rparr>]\<rparr>]"
    by (simp add: destructure_code_alone loop_body_def)
  from v dist one named out have
    "\<exists>valueSet. csvToValueSet env options = Inr valueSet \<and>
            distinct (map system (compose_include valueSet)) \<and>
            (\<forall>r \<in> set ?recs.
               \<exists>grp. filter (\<lambda>g. system g = record_system r) (compose_include valueSet) = [grp] \<and>
                     concept grp =
                       Some (map record_concept
                              (filter (\<lambda>r'. record_system r' = record_system r) ?recs))) \<and>
            (\<forall>grp \<in> set (compose_include valueSet).
               (system grp = JStr [] \<longrightarrow>
                  concept grp =
                    Some (map record_concept (filter (\<lambda>r. record_system r = JStr []) ?recs))) \<and>
               (system grp = JUndefined \<longrightarrow>
                  concept grp =
                    Some (map record_concept (filter (\<lambda>r. record_system r = JUndefined) ?recs)))) \<and>
            (\<forall>line \<in> set (data_lines csv). line \<noteq> [] \<and> CHR '','' \<notin> set line \<longrightarrow>
               (\<exists>grp \<in> set (compose_include valueSet). \<exists>cs.
                  system grp = JUndefined \<and> concept grp = Some cs \<and>
                  \<lparr>code = JStr line, display = JUndefined, definition' = JUndefined\<rparr> \<in> set cs))"
    by blast
  with three alone show ?thesis by blast
qed

lemma data_lines_sparse_file:
  "data_lines sparse_file = [''A0,http://sys,Zero'', ''A1,,Display One'', ''A2'']"
  by (simp add: data_lines_def sparse_file_def line_feed_def)

lemma records_sparse_file:
  "records (data_lines sparse_file) =
     [(JStr ''A0'', JStr ''http://sys'', JStr ''Zero''),
      (JStr ''A1'', JStr [], JStr ''Display One''), (JStr ''A2'', JUndefined, JUndefined)]"
  by (simp add: data_lines_sparse_file records_def destructure_def element_def)

lemma read_sparse_csv:
  "readFileSync files (csvFile (csv_defaults ''/data/sparse.csv'')) = Some sparse_file"
  by (simp add: files_def csv_defaults_def)

theorem system_matching_exact_witness:
  "readFileSync files (csvFile (csv_defaults ''/data/sparse.csv'')) = Some sparse_file \<and>
   (JStr ''A1'', JStr [], JStr ''Display One'') \<in> set (records (data_lines sparse_file)) \<and>
   (JStr ''A2'', JUndefined, JUndefined) \<in> set (records (data_lines sparse_file)) \<and>
   (\<exists>valueSet. csvToValueSet files (csv_defaults ''/data/sparse.csv'') = Inr valueSet \<and>
      map system (compose_include valueSet) = [JStr ''http://sys'', JStr [], JUndefined] \<and>
      (\<exists>grp. filter (\<lambda>g. system g = JStr []) (compose_include valueSet) = [grp] \<and>
         concept grp = Some [\<lparr>code = JStr ''A1'', display = JStr ''Display One'',
                               definition' = JUndefined\<rparr>]) \<and>
      (\<exists>grp. filter (\<lambda>g. system g = JUndefined) (compose_include valueSet) = [grp] \<and>
         concept grp = Some [\<lparr>code = JStr ''A2'', display = JUndefined,
                               definition' = JUndefined\<rparr>])) \<and>
   ''A2'' \<noteq> [] \<and> CHR '','' \<notin> set ''A2'' \<and>
   destructure ''A2'' = (JStr ''A2'', JUndefined, JUndefined)"
proof -
  let ?r1 = "(JStr ''A1'', JStr [], JStr ''Display One'')"
  let ?r2 = "(JStr ''A2'', JUndefined, JUndefined)"
  have r: "?r1 \<in> set (records (data_lines sparse_file))"
    "?r2 \<in> set (records (data_lines sparse_file))"
    by (simp_all add: records_sparse_file)
  from system_matching_exact [OF read_sparse_csv] obtain v where
    v: "csvToValueSet files (csv_defaults ''/data/sparse.csv'') = Inr v"
    and one: "\<forall>r \<in> set (records (data_lines sparse_file)).
               \<exists>grp. filter (\<lambda>g. system g = record_system r) (compose_include v) = [grp] \<and>
                     concept grp =
                       Some (map record_concept
                              (filter (\<lambda>r'. record_system r' = record_system r)
                                 (records (data_lines sparse_file))))"
    by blast
  have s: "map system (compose_include v) = [JStr ''http://sys'', JStr [], JUndefined]"
    using csvToValueSet_include [OF read_sparse_csv] v
    by (auto simp: records_sparse_file record_system_def grouping_def system_group_of)
  from one r(1) have
    "\<exists>grp. filter (\<lambda>g. system g = record_system ?r1) (compose_include v) = [grp] \<and>
       concept grp = Some (map record_concept
          (filter (\<lambda>r'. record_system r' = record_system ?r1)
             (records (data_lines sparse_file))))"
    by blast
  then have g1: "\<exists>grp. filter (\<lambda>g. system g = JStr []) (compose_include v) = [grp] \<and>
         concept grp = Some [\<lparr>code = JStr ''A1'', display = JStr ''Display One'',
                               definition' = JUndefined\<rparr>]"
    by (simp add: records_sparse_file record_system_def record_concept_def)
  from one r(2) have
    "\<exists>grp. filter (\<lambda>g. system g = record_system ?r2) (compose_include v) = [grp] \<and>
       concept grp = Some (map record_concept
          (filter (\<lambda>r'. record_system r' = record_system ?r2)
             (records (data_lines sparse_file))))"
    by blast
  then have g2: "\<exists>grp. filter (\<lambda>g. system g = JUndefined) (compose_include v) = [grp] \<and>
         concept grp = Some [\<lparr>code = JStr ''A2'', display = JUndefined,
                               definition' = JUndefined\<rparr>]"
    by (simp add: records_sparse_file record_system_def record_concept_def)
  have "destructure ''A2'' = (JStr ''A2'', JUndefined, JUndefined)"
    using system_matching_exact [OF read_sparse_csv] by simp
  with v s g1 g2 r read_sparse_csv show ?thesis by simp
qed

section \<open>Defaults of the flat path\<close>

lemma endsWith_append: "endsWith (stem @ ext) ext"
  by (simp add: endsWith_def)

lemma replace_suffix_append: "replace_suffix ext r (stem @ ext) = stem @ r"
  by (simp add: replace_suffix_def endsWith_append)

lemma replace_suffix_other: "\<not> endsWith s ext \<Longrightarrow> replace_suffix ext r s = s"
  by (simp add: replace_suffix_def)

lemma or_default_falsy: "\<not> truthy (optional v) \<Longrightarrow> or_default v d = d"
  by (cases v) (auto simp: or_default_def)

lemma or_default_truthy: "truthy (optional v) \<Longrightarrow> optional v = JStr (or_default v d)"
  by (cases v) (auto simp: or_default_def)

lemma endsWith_csv_codes: "endsWith ''/data/codes.csv'' ''.csv''"
  by (simp add: endsWith_def)

lemma convert_flat_file:
  "convert files ''/data/codes.csv'' no_explicit_options =
     Inr \<lparr>resourceType = ''ValueSet'', id' = JStr ''codes'',
          url = JStr ''http://hl7.org/fhir/ValueSet/codes'', name = JStr ''codes'',
          description = JUndefined, status = JStr ''draft'',
          compose_include = csv_loop [] (data_lines flat_file)\<rparr>"
  by (simp add: convert_def endsWith_csv_codes csvToValueSet_def files_def no_explicit_options_def
      or_default_def posix_basename_def replace_suffix_def endsWith_def data_lines_def Let_def)

lemma output_arg_default: "output_arg no_explicit_options = OutputAbsent"
  by (simp add: no_explicit_options_def)

text \<open>
  Against claim C6 as stated: the first end-to-end scenario, run from the command with no
  explicit option, prints a document whose status is \<^verbatim>\<open>draft\<close>, not \<^verbatim>\<open>active\<close>.
\<close>

theorem scenario_status_counterexample:
  "action files ''/data/codes.csv'' no_explicit_options =
     Inr (ConsoleLog
       \<lparr>resourceType = ''ValueSet'', id' = JStr ''codes'',
        url = JStr ''http://hl7.org/fhir/ValueSet/codes'', name = JStr ''codes'',
        description = JUndefined, status = JStr ''draft'',
        compose_include =
          [\<lparr>system = JStr ''http://sys'',
            concept = Some [\<lparr>code = JStr ''A'', display = JStr ''Alpha'', definition' = JUndefined\<rparr>,
                            \<lparr>code = JStr ''B'', display = JStr ''Beta'', definition' = JUndefined\<rparr>]\<rparr>,
           \<lparr>system = JStr ''http://other'',
            concept = Some [\<lparr>code = JStr ''C'', display = JStr ''Gamma'', definition' = JUndefined\<rparr>]\<rparr>]\<rparr>) \<and>
   map_sum id status (convert files ''/data/codes.csv'' no_explicit_options) \<noteq> Inr (JStr ''active'')"
  by (simp add: action_def convert_flat_file csv_loop_flat_file output_arg_default)

text \<open>
  Claim C6, amended. Whenever the flat file can be read, the flat conversion returns a
  document in which, when no explicit value is supplied for the field: the id is the base
  name of the input file with the \<^verbatim>\<open>.csv\<close> extension stripped (the base name itself when
  it has no such ending); the url is \<^verbatim>\<open>http://hl7.org/fhir/ValueSet/\<close> followed by the
  resolved id; the name is the resolved id; the description is left unset; the status is
  the fixed default \<^verbatim>\<open>active\<close>. The command always supplies a status, its own default
  \<^verbatim>\<open>draft\<close> when \<^verbatim>\<open>--status\<close> is not given: run with no explicit options on a readable
  \<^verbatim>\<open>.csv\<close> file, as in the first end-to-end scenario, it yields the status \<^verbatim>\<open>draft\<close>, with
  id, url and name derived from the file name and no description.
\<close>

theorem csv_field_defaulting:
  assumes "readFileSync env (csvFile options) = Some csv"
  shows "(\<exists>valueSet resolved.
            csvToValueSet env options = Inr valueSet \<and> id' valueSet = JStr resolved \<and>
            (id_opt options = None \<longrightarrow>
               resolved = replace_suffix ''.csv'' [] (basename env (csvFile options)) \<and>
               (\<forall>stem. basename env (csvFile options) = stem @ ''.csv'' \<longrightarrow> resolved = stem) \<and>
               (\<not> endsWith (basename env (csvFile options)) ''.csv'' \<longrightarrow>
                  resolved = basename env (csvFile options))) \<and>
            (url_opt options = None \<longrightarrow>
               url valueSet = JStr (''http://hl7.org/fhir/ValueSet/'' @ resolved)) \<and>
            (name_opt options = None \<longrightarrow> name valueSet = JStr resolved) \<and>
            (description_opt options = None \<longrightarrow> description valueSet = JUndefined) \<and>
            (status_opt options = None \<longrightarrow> status valueSet = JStr ''active'')) \<and>
         (endsWith (csvFile options) ''.csv'' \<longrightarrow>
            (\<exists>valueSet resolved.
               convert env (csvFile options) no_explicit_options = Inr valueSet \<and>
               resolved = replace_suffix ''.csv'' [] (basename env (csvFile options)) \<and>
               id' valueSet = JStr resolved \<and>
               url valueSet = JStr (''http://hl7.org/fhir/ValueSet/'' @ resolved) \<and>
               name valueSet = JStr resolved \<and>
               description valueSet = JUndefined \<and>
               status valueSet = JStr ''draft''))"
proof -
  let ?base = "basename env (csvFile options)"
  let ?resolved = "or_default (id_opt options) (replace_suffix ''.csv'' [] ?base)"
  obtain valueSet where v: "csvToValueSet env options = Inr valueSet"
    and i: "id' valueSet = JStr ?resolved"
    and u: "url valueSet =
              JStr (or_default (url_opt options) (''http://hl7.org/fhir/ValueSet/'' @ ?resolved))"
    and n: "name valueSet = JStr (or_default (name_opt options) ?resolved)"
    and d: "description valueSet = optional (description_opt options)"
    and s: "status valueSet = JStr (or_default (status_opt options) ''active'')"
    using assms by (simp add: csvToValueSet_def Let_def)
  have "id_opt options = None \<longrightarrow>
          ?resolved = replace_suffix ''.csv'' [] ?base \<and>
          (\<forall>stem. ?base = stem @ ''.csv'' \<longrightarrow> ?resolved = stem) \<and>
          (\<not> endsWith ?base ''.csv'' \<longrightarrow> ?resolved = ?base)"
    using replace_suffix_append [of "''.csv''" "[]"]
    by (auto simp: or_default_falsy replace_suffix_other)
  then have first: "\<exists>valueSet resolved.
            csvToValueSet env options = Inr valueSet \<and> id' valueSet = JStr resolved \<and>
            (id_opt options = None \<longrightarrow>
               resolved = replace_suffix ''.csv'' [] (basename env (csvFile options)) \<and>
               (\<forall>stem. basename env (csvFile options) = stem @ ''.csv'' \<longrightarrow> resolved = stem) \<and>
               (\<not> endsWith (basename env (csvFile options)) ''.csv'' \<longrightarrow>
                  resolved = basename env (csvFile options))) \<and>
            (url_opt options = None \<longrightarrow>
               url valueSet = JStr (''http://hl7.org/fhir/ValueSet/'' @ resolved)) \<and>
            (name_opt options = None \<longrightarrow> name valueSet = JStr resolved) \<and>
            (description_opt options = None \<longrightarrow> description valueSet = JUndefined) \<and>
            (status_opt options = None \<longrightarrow> status valueSet = JStr ''active'')"
    using v i u n d s
    by (intro exI [of _ valueSet] exI [of _ ?resolved]) (simp add: or_default_falsy)
  have second: "endsWith (csvFile options) ''.csv'' \<longrightarrow>
            (\<exists>valueSet resolved.
               convert env (csvFile options) no_explicit_options = Inr valueSet \<and>
               resolved = replace_suffix ''.csv'' [] (basename env (csvFile options)) \<and>
               id' valueSet = JStr resolved \<and>
               url valueSet = JStr (''http://hl7.org/fhir/ValueSet/'' @ resolved) \<and>
               name valueSet = JStr resolved \<and>
               description valueSet = JUndefined \<and>
               status valueSet = JStr ''draft'')"
    using assms
    by (simp add: convert_def csvToValueSet_def Let_def no_explicit_options_def or_default_def)
  from first second show ?thesis by blast
qed

theorem csv_field_defaulting_witness:
  "readFileSync files (csvFile (csv_defaults ''/data/codes.csv'')) = Some flat_file \<and>
   id_opt (csv_defaults ''/data/codes.csv'') = None \<and>
   url_opt (csv_defaults ''/data/codes.csv'') = None \<and>
   name_opt (csv_defaults ''/data/codes.csv'') = None \<and>
   description_opt (csv_defaults ''/data/codes.csv'') = None \<and>
   status_opt (csv_defaults ''/data/codes.csv'') = None \<and>
   basename files (csvFile (csv_defaults ''/data/codes.csv'')) = ''codes'' @ ''.csv'' \<and>
   endsWith (csvFile (csv_defaults ''/data/codes.csv'')) ''.csv'' \<and>
   (\<exists>valueSet. csvToValueSet files (csv_defaults ''/data/codes.csv'') = Inr valueSet \<and>
      id' valueSet = JStr ''codes'' \<and> url valueSet = JStr ''http://hl7.org/fhir/ValueSet/codes'' \<and>
      name valueSet = JStr ''codes'' \<and> description valueSet = JUndefined \<and>
      status valueSet = JStr ''active'') \<and>
   (\<exists>valueSet. convert files ''/data/codes.csv'' no_explicit_options = Inr valueSet \<and>
      id' valueSet = JStr ''codes'' \<and> url valueSet = JStr ''http://hl7.org/fhir/ValueSet/codes'' \<and>
      name valueSet = JStr ''codes'' \<and> description valueSet = JUndefined \<and>
      status valueSet = JStr ''draft'')"
proof -
  have e: "endsWith (csvFile (csv_defaults ''/data/codes.csv'')) ''.csv''"
    by (simp add: csv_defaults_def endsWith_def)
  have b: "basename files ''/data/codes.csv'' = ''codes.csv''"
    by (simp add: files_def posix_basename_def)
  have r: "replace_suffix ''.csv'' [] ''codes.csv'' = ''codes''"
    by (simp add: replace_suffix_def endsWith_def)
  have o: "id_opt (csv_defaults ''/data/codes.csv'') = None" "url_opt (csv_defaults ''/data/codes.csv'') = None"
    "name_opt (csv_defaults ''/data/codes.csv'') = None"
    "description_opt (csv_defaults ''/data/codes.csv'') = None"
    "status_opt (csv_defaults ''/data/codes.csv'') = None"
    "csvFile (csv_defaults ''/data/codes.csv'') = ''/data/codes.csv''"
    by (simp_all add: csv_defaults_def)
  from csv_field_defaulting [OF read_codes_csv] e
  have "(\<exists>valueSet. csvToValueSet files (csv_defaults ''/data/codes.csv'') = Inr valueSet \<and>
      id' valueSet = JStr ''codes'' \<and> url valueSet = JStr ''http://hl7.org/fhir/ValueSet/codes'' \<and>
      name valueSet = JStr ''codes'' \<and> description valueSet = JUndefined \<and>
      status valueSet = JStr ''active'') \<and>
   (\<exists>valueSet. convert files ''/data/codes.csv'' no_explicit_options = Inr valueSet \<and>
      id' valueSet = JStr ''codes'' \<and> url valueSet = JStr ''http://hl7.org/fhir/ValueSet/codes'' \<and>
      name valueSet = JStr ''codes'' \<and> description valueSet = JUndefined \<and>
      status valueSet = JStr ''draft'')"
    by (auto simp: o b r)
  then show ?thesis
    using read_codes_csv e b o by simp
qed

section \<open>The structured path reads a property the caller does not set\<close>

lemma hasOwnProperty_error: "hasOwnProperty proto v p = Inl e \<Longrightarrow> e = TypeError"
  by (auto simp: hasOwnProperty_def split: jsval.splits if_splits)

lemma fill_missing_no_codeSystem:
  "get_prop proto (JObj options) ''codeSystem'' = JUndefined \<Longrightarrow>
   fill_missing proto ks options = Inl TypeError \<or> fill_missing proto ks options = Inr options"
proof (induction ks)
  case Nil
  then show ?case by simp
next
  case (Cons property rest)
  have u: "hasOwnProperty proto JUndefined property = Inl TypeError"
    by (simp add: hasOwnProperty_def)
  show ?case
  proof (cases "hasOwnProperty proto (JObj options) property")
    case (Inl e)
    then show ?thesis using hasOwnProperty_error [OF Inl] by simp
  next
    case (Inr own)
    then show ?thesis using Cons u by simp
  qed
qed

text \<open>A structured run fails whenever neither the options nor \<^verbatim>\<open>Object.prototype\<close>, as
  the loaded module leaves it, have a \<^verbatim>\<open>codeSystem\<close> property.\<close>

lemma structured_without_codeSystem:
  assumes own: "read_prop options ''codeSystem'' = JUndefined"
    and inherited: "\<And>m proto. load env (read_prop options ''jsonFile'') = Inr (m, proto) \<Longrightarrow>
                      read_prop proto ''codeSystem'' = JUndefined"
  shows "codeSystemToValueSet env options = Inl RequireError \<or>
         codeSystemToValueSet env options = Inl TypeError"
proof (cases "load env (read_prop options ''jsonFile'')")
  case (Inl e)
  then have "e = RequireError \<or> e = TypeError"
    by (auto simp: load_def split: jsval.splits option.splits)
  then show ?thesis using Inl by (auto simp: codeSystemToValueSet_def)
next
  case (Inr loaded)
  obtain m proto where l: "loaded = (m, proto)" by (cases loaded)
  have "read_prop proto ''codeSystem'' = JUndefined"
    using inherited Inr l by simp
  with own have u: "get_prop proto (JObj options) ''codeSystem'' = JUndefined"
    by (simp add: get_prop_def)
  from fill_missing_no_codeSystem [OF u, of "for_in_keys proto options"]
  show ?thesis
  proof
    assume "fill_missing proto (for_in_keys proto options) options = Inl TypeError"
    then show ?thesis using Inr l by (simp add: codeSystemToValueSet_def)
  next
    assume "fill_missing proto (for_in_keys proto options) options = Inr options"
    then show ?thesis using Inr l u by (simp add: codeSystemToValueSet_def member_def)
  qed
qed

text \<open>So does every run of the command on a path that is not a \<^verbatim>\<open>.csv\<close> path, when the
  loaded module leaves no \<^verbatim>\<open>codeSystem\<close> on \<^verbatim>\<open>Object.prototype\<close>, as every JSON file does.\<close>

lemma convert_structured_fails:
  assumes "\<not> endsWith path ''.csv''"
    and "read_prop (object_prototype env path) ''codeSystem'' = JUndefined"
  shows "convert env path options = Inl RequireError \<or> convert env path options = Inl TypeError"
proof -
  let ?o = "[(''jsonFile'', JStr path), (''status'', JStr (status_arg options)),
             (''url'', optional (url_arg options)), (''name'', optional (name_arg options)),
             (''description'', optional (description_arg options)),
             (''id'', optional (id_arg options))]"
  have own: "read_prop ?o ''codeSystem'' = JUndefined"
    by (simp add: read_prop_def)
  have inh: "read_prop proto ''codeSystem'' = JUndefined"
    if "load env (read_prop ?o ''jsonFile'') = Inr (m, proto)" for m proto
    using that assms(2) by (auto simp: read_prop_def load_def split: option.splits)
  from structured_without_codeSystem [of ?o env, OF own inh] show ?thesis
    using assms(1) by (simp add: convert_def)
qed

lemma structured_one_group:
  assumes "codeSystemToValueSet env options = Inr valueSet"
  shows "\<exists>s cs. compose_include valueSet = [\<lparr>system = s, concept = Some cs\<rparr>]"
  using assms
  by (auto simp: codeSystemToValueSet_def split: sum.splits if_splits prod.splits)

lemma require_codesystem: "require files ''/data/codesystem.json'' = Some document"
  by (simp add: files_def)

lemma load_codesystem: "load files (JStr ''/data/codesystem.json'') = Inr (document, [])"
  by (simp add: load_def files_def)

lemma not_csv_codesystem: "\<not> endsWith ''/data/codesystem.json'' ''.csv''"
  by (simp add: endsWith_def)

text \<open>
  Claim C1, on the code. The second end-to-end scenario: the document
  \<^verbatim>\<open>{url: "http://sys", concept: [{code: "A", display: "Alpha"}]}\<close> is loaded, the options
  are \<^verbatim>\<open>{status: "draft"}\<close> with the file path. The conversion ends in a TypeError, both
  when called with these options and when run from the command, and returns no document.
\<close>

theorem structured_defaulting_fails:
  "require files ''/data/codesystem.json'' = Some document \<and>
   codeSystemToValueSet files [(''jsonFile'', JStr ''/data/codesystem.json''), (''status'', JStr ''draft'')]
     = Inl TypeError \<and>
   convert files ''/data/codesystem.json'' no_explicit_options = Inl TypeError"
proof -
  have "codeSystemToValueSet files
          [(''jsonFile'', JStr ''/data/codesystem.json''), (''status'', JStr ''draft'')] = Inl TypeError"
    by (simp add: codeSystemToValueSet_def load_codesystem read_prop_def hasOwnProperty_def
        member_def get_prop_def for_in_keys_def)
  moreover have "convert files ''/data/codesystem.json'' no_explicit_options = Inl TypeError"
    by (simp add: convert_def not_csv_codesystem codeSystemToValueSet_def load_codesystem
        read_prop_def hasOwnProperty_def no_explicit_options_def get_prop_def for_in_keys_def)
  ultimately show ?thesis using require_codesystem by simp
qed

lemma load_empty: "load files (JStr ''/data/empty.json'') = Inr (empty_document, [])"
  by (simp add: load_def files_def)

lemma not_csv_empty: "\<not> endsWith ''/data/empty.json'' ''.csv''"
  by (simp add: endsWith_def)

text \<open>
  Claim C2, on the code. A structured document with an empty concept list: run from the
  command, the conversion ends in a TypeError, which is not the error
  \<^verbatim>\<open>CodeSystem must have at least one concept\<close>; called with the document as the
  \<^verbatim>\<open>codeSystem\<close> property of the options, it does not fail at all and returns a document
  whose single inclusion group has no concept. With a document that has no concept list
  as that property, it fails with the error of line 36.
\<close>

theorem empty_concepts_not_rejected:
  "require files ''/data/empty.json'' = Some empty_document \<and>
   convert files ''/data/empty.json'' no_explicit_options = Inl TypeError \<and>
   codeSystemToValueSet files
     [(''jsonFile'', JStr ''/data/empty.json''), (''status'', JStr ''draft''),
      (''codeSystem'', empty_document)]
     = Inr \<lparr>resourceType = ''ValueSet'', id' = JUndefined, url = JUndefined, name = JUndefined,
            description = JUndefined, status = JStr ''draft'',
            compose_include = [\<lparr>system = JStr ''http://sys'', concept = Some []\<rparr>]\<rparr> \<and>
   codeSystemToValueSet files
     [(''jsonFile'', JStr ''/data/empty.json''), (''status'', JStr ''draft''),
      (''codeSystem'', JObj [(''url'', JStr ''http://sys'')])]
     = Inl (Error ''CodeSystem must have at least one concept'')"
proof -
  have "convert files ''/data/empty.json'' no_explicit_options = Inl TypeError"
    by (simp add: convert_def not_csv_empty codeSystemToValueSet_def load_empty
        read_prop_def hasOwnProperty_def no_explicit_options_def get_prop_def for_in_keys_def)
  moreover have "codeSystemToValueSet files
     [(''jsonFile'', JStr ''/data/empty.json''), (''status'', JStr ''draft''),
      (''codeSystem'', empty_document)]
     = Inr \<lparr>resourceType = ''ValueSet'', id' = JUndefined, url = JUndefined, name = JUndefined,
            description = JUndefined, status = JStr ''draft'',
            compose_include = [\<lparr>system = JStr ''http://sys'', concept = Some []\<rparr>]\<rparr>"
    by (simp add: codeSystemToValueSet_def load_empty read_prop_def hasOwnProperty_def
        member_def empty_document_def concept_map_def get_prop_def for_in_keys_def)
  moreover have "codeSystemToValueSet files
     [(''jsonFile'', JStr ''/data/empty.json''), (''status'', JStr ''draft''),
      (''codeSystem'', JObj [(''url'', JStr ''http://sys'')])]
     = Inl (Error ''CodeSystem must have at least one concept'')"
    by (simp add: codeSystemToValueSet_def load_empty read_prop_def hasOwnProperty_def
        member_def get_prop_def for_in_keys_def)
  ultimately show ?thesis by (simp add: files_def)
qed

section \<open>Inclusion groups of a successful run\<close>

lemma read_header_csv: "readFileSync files ''/data/header.csv'' = Some header_file"
  by (simp add: files_def)

lemma data_lines_header_file: "data_lines header_file = [[]]"
  by (simp add: data_lines_def header_file_def line_feed_def)

lemma endsWith_csv_header: "endsWith ''/data/header.csv'' ''.csv''"
  by (simp add: endsWith_def)

text \<open>
  Against claim C5 as stated: a flat file that holds the header alone is converted without
  failure, and the document that is printed has no inclusion group.
\<close>

theorem header_only_counterexample:
  "action files ''/data/header.csv'' no_explicit_options =
     Inr (ConsoleLog
       \<lparr>resourceType = ''ValueSet'', id' = JStr ''header'',
        url = JStr ''http://hl7.org/fhir/ValueSet/header'', name = JStr ''header'',
        description = JUndefined, status = JStr ''draft'', compose_include = []\<rparr>)"
proof -
  have "csv_loop [] (data_lines header_file) = []"
    by (simp add: data_lines_header_file loop_body_def destructure_def element_def)
  then have "convert files ''/data/header.csv'' no_explicit_options =
     Inr \<lparr>resourceType = ''ValueSet'', id' = JStr ''header'',
          url = JStr ''http://hl7.org/fhir/ValueSet/header'', name = JStr ''header'',
          description = JUndefined, status = JStr ''draft'', compose_include = []\<rparr>"
    by (simp add: convert_def endsWith_csv_header csvToValueSet_def read_header_csv
        no_explicit_options_def or_default_def files_def posix_basename_def replace_suffix_def
        endsWith_def data_lines_def Let_def)
  then show ?thesis by (simp add: action_def output_arg_default)
qed

lemma grouping_Nil_iff: "grouping recs = [] \<longleftrightarrow> recs = []"
  by (cases recs) (simp_all add: grouping_def)

lemma records_Nil_iff: "records ls = [] \<longleftrightarrow> (\<forall>line \<in> set ls. code_field line = [])"
proof -
  have "truthy (fst (destructure line)) \<longleftrightarrow> code_field line \<noteq> []" for line
    by (simp add: destructure_code)
  then show ?thesis
    by (auto simp: records_def filter_empty_conv split_beta)
qed

text \<open>
  Claim C5, amended. Whenever the flat file can be read, the flat conversion succeeds;
  every inclusion group of its output contains at least one concept; and the output has
  an inclusion group exactly when some line after line index 0 has a non-empty first
  field, so a flat input that yields no concept gives a document with no inclusion group
  and is not a failure. Every successful structured conversion produces exactly one
  inclusion group.
\<close>

theorem output_inclusion_groups:
  "(readFileSync env (csvFile options) = Some csv \<longrightarrow>
      (\<exists>valueSet. csvToValueSet env options = Inr valueSet \<and>
         (\<forall>grp \<in> set (compose_include valueSet). 0 < concept_count grp) \<and>
         (compose_include valueSet \<noteq> [] \<longleftrightarrow>
            (\<exists>line \<in> set (data_lines csv). code_field line \<noteq> [])))) \<and>
   (codeSystemToValueSet env structured_options = Inr structured_valueSet \<longrightarrow>
      length (compose_include structured_valueSet) = 1)"
proof (intro conjI impI)
  assume "readFileSync env (csvFile options) = Some csv"
  from csvToValueSet_include [OF this] obtain valueSet where
    v: "csvToValueSet env options = Inr valueSet"
    and g: "compose_include valueSet = grouping (records (data_lines csv))"
    by blast
  have "\<forall>grp \<in> set (compose_include valueSet). 0 < concept_count grp"
    using g grouping_concepts [of _ "records (data_lines csv)"]
    by (fastforce simp: concept_count_def)
  moreover have "compose_include valueSet \<noteq> [] \<longleftrightarrow>
      (\<exists>line \<in> set (data_lines csv). code_field line \<noteq> [])"
    using g by (simp add: grouping_Nil_iff records_Nil_iff)
  ultimately show "\<exists>valueSet. csvToValueSet env options = Inr valueSet \<and>
         (\<forall>grp \<in> set (compose_include valueSet). 0 < concept_count grp) \<and>
         (compose_include valueSet \<noteq> [] \<longleftrightarrow>
            (\<exists>line \<in> set (data_lines csv). code_field line \<noteq> []))"
    using v by blast
next
  assume "codeSystemToValueSet env structured_options = Inr structured_valueSet"
  from structured_one_group [OF this]
  show "length (compose_include structured_valueSet) = 1" by auto
qed

lemma structured_supplied_document:
  "codeSystemToValueSet files
     [(''jsonFile'', JStr ''/data/codesystem.json''), (''status'', JStr ''draft''),
      (''url'', JUndefined), (''codeSystem'', document)] =
   Inr \<lparr>resourceType = ''ValueSet'', id' = JUndefined, url = JStr ''http://sys'',
        name = JUndefined, description = JUndefined, status = JStr ''draft'',
        compose_include =
          [\<lparr>system = JStr ''http://sys'',
            concept = Some [\<lparr>code = JStr ''A'', display = JStr ''Alpha'',
                             definition' = JUndefined\<rparr>]\<rparr>]\<rparr>"
  by (simp add: codeSystemToValueSet_def load_codesystem read_prop_def hasOwnProperty_def
      member_def document_def concept_map_def map_concept_def assign_def get_prop_def
      for_in_keys_def)

theorem output_inclusion_groups_witness:
  "readFileSync files (csvFile (csv_defaults ''/data/codes.csv'')) = Some flat_file \<and>
   (\<exists>valueSet. csvToValueSet files (csv_defaults ''/data/codes.csv'') = Inr valueSet \<and>
      compose_include valueSet \<noteq> [] \<and>
      0 < concept_count (hd (compose_include valueSet))) \<and>
   ''A,http://sys,Alpha'' \<in> set (data_lines flat_file) \<and>
   code_field ''A,http://sys,Alpha'' \<noteq> [] \<and>
   codeSystemToValueSet files
     [(''jsonFile'', JStr ''/data/codesystem.json''), (''status'', JStr ''draft''),
      (''url'', JUndefined), (''codeSystem'', document)] =
   Inr \<lparr>resourceType = ''ValueSet'', id' = JUndefined, url = JStr ''http://sys'',
        name = JUndefined, description = JUndefined, status = JStr ''draft'',
        compose_include =
          [\<lparr>system = JStr ''http://sys'',
            concept = Some [\<lparr>code = JStr ''A'', display = JStr ''Alpha'',
                             definition' = JUndefined\<rparr>]\<rparr>]\<rparr> \<and>
   length (compose_include
     \<lparr>resourceType = ''ValueSet'', id' = JUndefined, url = JStr ''http://sys'',
      name = JUndefined, description = JUndefined, status = JStr ''draft'',
      compose_include =
        [\<lparr>system = JStr ''http://sys'',
          concept = Some [\<lparr>code = JStr ''A'', display = JStr ''Alpha'',
                           definition' = JUndefined\<rparr>]\<rparr>]\<rparr>) = 1"
proof -
  let ?o = "[(''jsonFile'', JStr ''/data/codesystem.json''), (''status'', JStr ''draft''),
             (''url'', JUndefined), (''codeSystem'', document)]"
  let ?v = "\<lparr>resourceType = ''ValueSet'', id' = JUndefined, url = JStr ''http://sys'',
      name = JUndefined, description = JUndefined, status = JStr ''draft'',
      compose_include =
        [\<lparr>system = JStr ''http://sys'',
          concept = Some [\<lparr>code = JStr ''A'', display = JStr ''Alpha'',
                           definition' = JUndefined\<rparr>]\<rparr>]\<rparr>"
  note t = output_inclusion_groups [of files "csv_defaults ''/data/codes.csv''" flat_file ?o ?v]
  have line: "''A,http://sys,Alpha'' \<in> set (data_lines flat_file)"
    and code: "code_field ''A,http://sys,Alpha'' \<noteq> []"
    by (simp_all add: data_lines_flat_file code_field_def)
  from t read_codes_csv obtain valueSet where
    v: "csvToValueSet files (csv_defaults ''/data/codes.csv'') = Inr valueSet"
    and c: "\<forall>grp \<in> set (compose_include valueSet). 0 < concept_count grp"
    and n: "compose_include valueSet \<noteq> [] \<longleftrightarrow>
              (\<exists>line \<in> set (data_lines flat_file). code_field line \<noteq> [])"
    by blast
  from n line code have ne: "compose_include valueSet \<noteq> []" by blast
  with c have "0 < concept_count (hd (compose_include valueSet))" by simp
  moreover from t structured_supplied_document have "length (compose_include ?v) = 1"
    by blast
  ultimately show ?thesis
    using v ne line code read_codes_csv structured_supplied_document by simp
qed

section \<open>The output path derived for a bare \<^verbatim>\<open>--output\<close>\<close>

lemma not_endsWith_json_csv: "\<not> endsWith (stem @ ''-value-set.json'') ''.csv''"
  by (simp add: endsWith_def)

lemma not_endsWith_csv_json: "\<not> endsWith (stem @ ''.csv'') ''.json''"
  by (simp add: endsWith_def)

lemma derive_outFile_json: "derive_outFile (stem @ ''.json'') = stem @ ''-value-set.json''"
  by (simp add: derive_outFile_def replace_suffix_append replace_suffix_other
      not_endsWith_json_csv)

lemma derive_outFile_csv: "derive_outFile (stem @ ''.csv'') = stem @ ''.json''"
  by (simp add: derive_outFile_def replace_suffix_append replace_suffix_other
      not_endsWith_csv_json)

lemma derive_outFile_other:
  "\<not> endsWith path ''.json'' \<Longrightarrow> \<not> endsWith path ''.csv'' \<Longrightarrow> derive_outFile path = path"
  by (simp add: derive_outFile_def replace_suffix_other)

lemma action_bare_output:
  "output_arg options = OutputFlag \<Longrightarrow>
   action env input options =
     (case convert env input options of
        Inl e \<Rightarrow> Inl e
      | Inr valueSet \<Rightarrow> Inr (WriteFileSync (derive_outFile input) valueSet))"
  by (simp add: action_def split: sum.splits)

text \<open>
  Claim C10. For a bare \<^verbatim>\<open>--output\<close> the derived output path is the input path with a
  trailing \<^verbatim>\<open>.json\<close> replaced by \<^verbatim>\<open>-value-set.json\<close>, or with a trailing \<^verbatim>\<open>.csv\<close> replaced by
  \<^verbatim>\<open>.json\<close>; for an input path that ends in neither, the derived path is the input path
  itself. With a bare \<^verbatim>\<open>--output\<close>, a conversion that succeeds is followed by the write of
  its document to the derived path and by nothing else, and every write of the action is
  such a write; so for an input path that ends in neither \<^verbatim>\<open>.json\<close> nor \<^verbatim>\<open>.csv\<close> the write
  targets the input file.
\<close>

theorem derived_output_path:
  "derive_outFile (stem @ ''.json'') = stem @ ''-value-set.json'' \<and>
   derive_outFile (stem @ ''.csv'') = stem @ ''.json'' \<and>
   (\<not> endsWith path ''.json'' \<and> \<not> endsWith path ''.csv'' \<longrightarrow> derive_outFile path = path) \<and>
   (output_arg options = OutputFlag \<and> convert env input options = Inr valueSet \<longrightarrow>
      action env input options = Inr (WriteFileSync (derive_outFile input) valueSet)) \<and>
   (output_arg options = OutputFlag \<and> action env input options = Inr eff \<longrightarrow>
      (\<exists>written. convert env input options = Inr written \<and>
         eff = WriteFileSync (derive_outFile input) written)) \<and>
   (output_arg options = OutputFlag \<and> \<not> endsWith input ''.json'' \<and> \<not> endsWith input ''.csv'' \<and>
    convert env input options = Inr valueSet \<longrightarrow>
      action env input options = Inr (WriteFileSync input valueSet))"
  by (auto simp: derive_outFile_json derive_outFile_csv derive_outFile_other action_bare_output
      split: sum.splits)

lemma load_module: "load files (JStr ''/data/codesystem.js'') = Inr (document, [(''codeSystem'', document)])"
  by (simp add: load_def files_def)

lemma not_csv_js: "\<not> endsWith ''/data/codesystem.js'' ''.csv''"
  by (simp add: endsWith_def)

lemma not_json_js: "\<not> endsWith ''/data/codesystem.js'' ''.json''"
  by (simp add: endsWith_def)

text \<open>A run that succeeds on the structured path: the module has stored the document as
  \<^verbatim>\<open>Object.prototype.codeSystem\<close>, where \<^verbatim>\<open>options.codeSystem\<close> finds it.\<close>

lemma convert_module:
  "convert files ''/data/codesystem.js'' bare_output_options =
     Inr \<lparr>resourceType = ''ValueSet'', id' = JUndefined, url = JStr ''http://sys'',
          name = JUndefined, description = JUndefined, status = JStr ''draft'',
          compose_include =
            [\<lparr>system = JStr ''http://sys'',
              concept = Some [\<lparr>code = JStr ''A'', display = JStr ''Alpha'',
                               definition' = JUndefined\<rparr>]\<rparr>]\<rparr>"
  by (simp add: convert_def not_csv_js codeSystemToValueSet_def load_module read_prop_def
      hasOwnProperty_def member_def document_def concept_map_def map_concept_def assign_def
      get_prop_def for_in_keys_def bare_output_options_def)

theorem derived_output_path_witness:
  "derive_outFile (''/data/codes'' @ ''.json'') = ''/data/codes'' @ ''-value-set.json'' \<and>
   derive_outFile (''/data/codes'' @ ''.csv'') = ''/data/codes'' @ ''.json'' \<and>
   output_arg bare_output_options = OutputFlag \<and>
   \<not> endsWith ''/data/codesystem.js'' ''.json'' \<and> \<not> endsWith ''/data/codesystem.js'' ''.csv'' \<and>
   derive_outFile ''/data/codesystem.js'' = ''/data/codesystem.js'' \<and>
   convert files ''/data/codesystem.js'' bare_output_options =
     Inr \<lparr>resourceType = ''ValueSet'', id' = JUndefined, url = JStr ''http://sys'',
          name = JUndefined, description = JUndefined, status = JStr ''draft'',
          compose_include =
            [\<lparr>system = JStr ''http://sys'',
              concept = Some [\<lparr>code = JStr ''A'', display = JStr ''Alpha'',
                               definition' = JUndefined\<rparr>]\<rparr>]\<rparr> \<and>
   action files ''/data/codesystem.js'' bare_output_options =
     Inr (WriteFileSync ''/data/codesystem.js''
       \<lparr>resourceType = ''ValueSet'', id' = JUndefined, url = JStr ''http://sys'',
        name = JUndefined, description = JUndefined, status = JStr ''draft'',
        compose_include =
          [\<lparr>system = JStr ''http://sys'',
            concept = Some [\<lparr>code = JStr ''A'', display = JStr ''Alpha'',
                             definition' = JUndefined\<rparr>]\<rparr>]\<rparr>)"
proof -
  let ?v = "\<lparr>resourceType = ''ValueSet'', id' = JUndefined, url = JStr ''http://sys'',
        name = JUndefined, description = JUndefined, status = JStr ''draft'',
        compose_include =
          [\<lparr>system = JStr ''http://sys'',
            concept = Some [\<lparr>code = JStr ''A'', display = JStr ''Alpha'',
                             definition' = JUndefined\<rparr>]\<rparr>]\<rparr>"
  have o: "output_arg bare_output_options = OutputFlag"
    by (simp add: bare_output_options_def)
  note t = derived_output_path [of "''/data/codes''" "''/data/codesystem.js''" bare_output_options
      files "''/data/codesystem.js''" ?v]
  from t not_json_js not_csv_js have d: "derive_outFile ''/data/codesystem.js'' = ''/data/codesystem.js''"
    by blast
  from t o not_json_js not_csv_js convert_module have
    a: "action files ''/data/codesystem.js'' bare_output_options =
          Inr (WriteFileSync ''/data/codesystem.js'' ?v)"
    by blast
  from t have "derive_outFile (''/data/codes'' @ ''.json'') = ''/data/codes'' @ ''-value-set.json''"
    and "derive_outFile (''/data/codes'' @ ''.csv'') = ''/data/codes'' @ ''.json''"
    by blast+
  with o d a not_json_js not_csv_js convert_module show ?thesis by blast
qed

end
